theory Spec2Isabelle
  imports Complex_Main "HOL-Library.Sublist"
begin

section \<open>Python values used by the video pipeline\<close>

text \<open>
  The pipeline of \<^verbatim>\<open>backend/server.py\<close> computes with Python floats (clip durations,
  zoom factors). A float is modelled by its rational value when it is finite, and by one
  of the three special values otherwise. The quotient of two ints, which is the clip
  duration, is rounded as Python rounds it: to the nearest double, ties to even
  (\<open>round_double\<close>). Sums and products of floats keep their exact value; their overflow to
  an infinity is modelled (\<open>fl\<close>), because \<^verbatim>\<open>int()\<close> raises on an infinity or a NaN and
  the pipeline calls \<^verbatim>\<open>int()\<close> on products of floats.
\<close>

datatype pyfloat = Finite rat | PInf | NInf | NaN

definition fl :: "rat \<Rightarrow> pyfloat" where
  \<comment> \<open>a result of magnitude at least \<open>2^1024 - 2^970\<close> rounds to an infinity\<close>
  "fl r = (if 2 ^ 1024 - 2 ^ 970 \<le> r then PInf
           else if r \<le> - (2 ^ 1024 - 2 ^ 970) then NInf
           else Finite r)"

fun fadd :: "pyfloat \<Rightarrow> pyfloat \<Rightarrow> pyfloat" where
  "fadd (Finite a) (Finite b) = fl (a + b)"
| "fadd NaN _ = NaN"
| "fadd _ NaN = NaN"
| "fadd PInf NInf = NaN"
| "fadd NInf PInf = NaN"
| "fadd PInf _ = PInf"
| "fadd _ PInf = PInf"
| "fadd NInf _ = NInf"
| "fadd _ NInf = NInf"

definition inf_of_sign :: "bool \<Rightarrow> pyfloat" where
  "inf_of_sign positive = (if positive then PInf else NInf)"

fun fmul :: "pyfloat \<Rightarrow> pyfloat \<Rightarrow> pyfloat" where
  "fmul (Finite a) (Finite b) = fl (a * b)"
| "fmul NaN _ = NaN"
| "fmul _ NaN = NaN"
| "fmul (Finite a) PInf = (if a = 0 then NaN else inf_of_sign (0 < a))"
| "fmul (Finite a) NInf = (if a = 0 then NaN else inf_of_sign (a < 0))"
| "fmul PInf (Finite b) = (if b = 0 then NaN else inf_of_sign (0 < b))"
| "fmul NInf (Finite b) = (if b = 0 then NaN else inf_of_sign (b < 0))"
| "fmul PInf PInf = PInf"
| "fmul NInf NInf = PInf"
| "fmul PInf NInf = NInf"
| "fmul NInf PInf = NInf"

definition float_of_int :: "int \<Rightarrow> pyfloat" where
  \<comment> \<open>the integer operand of a mixed \<open>int * float\<close>: a loop index, a pixel size or
      the literal 30, all far below the float range\<close>
  "float_of_int k = Finite (of_int k)"

datatype error =
    OSError
  | Base64Error
  | ZeroDivisionError
  | OverflowError
  | ValueError
  | IndexError
  | FileNotFoundError
  | UnidentifiedImageError
  | FfmpegError
  | PyException string

text \<open>
  Rounding a rational to the nearest double. \<open>bits n\<close> is the length of \<open>n\<close> in binary, so
  \<open>log2_floor r\<close> is the exponent \<open>e\<close> with \<open>2^e \<le> r < 2^(e+1)\<close> for a positive \<open>r\<close>. A
  double has 53 significant bits and no exponent below \<open>-1074\<close>: the result is the
  multiple of \<open>2^q\<close> nearest to \<open>r\<close>, with \<open>q = max (e - 52) (-1074)\<close>, a tie going to the
  even multiple.
\<close>

fun bits :: "nat \<Rightarrow> nat" where
  "bits n = (if n = 0 then 0 else Suc (bits (n div 2)))"

declare bits.simps [simp del]

definition log2_floor :: "rat \<Rightarrow> int" where
  "log2_floor r = (if 1 \<le> r then int (bits (nat \<lfloor>r\<rfloor>)) - 1
                   else - int (bits (nat (\<lceil>1 / r\<rceil> - 1))))"

definition round_half_even :: "rat \<Rightarrow> int" where
  "round_half_even m =
     (let f = \<lfloor>m\<rfloor>; d = m - of_int f in
      if d < 1 / 2 then f else if 1 / 2 < d then f + 1 else if even f then f else f + 1)"

definition round_double :: "rat \<Rightarrow> rat" where
  "round_double r =
     (if r = 0 then 0
      else let e = log2_floor \<bar>r\<bar>; q = max (e - 52) (- 1074) in
           of_int (round_half_even (r / 2 powi q)) * 2 powi q)"

definition py_truediv :: "int \<Rightarrow> int \<Rightarrow> error + pyfloat" where
  \<comment> \<open>\<open>a / b\<close> on two ints: the correctly rounded quotient, OverflowError when it is
      too large for a float\<close>
  "py_truediv a b =
     (if b = 0 then Inl ZeroDivisionError
      else case fl (round_double (of_int a / of_int b)) of
             Finite r \<Rightarrow> Inr (Finite r)
           | _ \<Rightarrow> Inl OverflowError)"

fun py_int :: "pyfloat \<Rightarrow> error + int" where
  \<comment> \<open>\<open>int(x)\<close> truncates toward zero\<close>
  "py_int (Finite r) = Inr (if 0 \<le> r then \<lfloor>r\<rfloor> else \<lceil>r\<rceil>)"
| "py_int PInf = Inl OverflowError"
| "py_int NInf = Inl OverflowError"
| "py_int NaN = Inl ValueError"

datatype pyval = PStr string | PInt int | PFloat pyfloat

text \<open>An f-string is kept as its parts: the literal pieces and the formatted values.\<close>

datatype fpart = Lit string | Val pyval

definition digit :: "nat \<Rightarrow> char" where
  "digit n = ''0123456789'' ! n"

fun show_nat :: "nat \<Rightarrow> string" where
  "show_nat n = (if n < 10 then [digit n] else show_nat (n div 10) @ [digit (n mod 10)])"

type_synonym path = string
type_synonym bytes = string

definition path_join :: "path \<Rightarrow> string \<Rightarrow> path" where
  \<comment> \<open>\<open>os.path.join(a, b)\<close> (posixpath)\<close>
  "path_join a b =
     (if b \<noteq> [] \<and> hd b = CHR ''/'' then b
      else if a = [] \<or> last a = CHR ''/'' then a @ b
      else a @ ''/'' @ b)"

text \<open>
  The output path is built with pathlib (\<^verbatim>\<open>OUTPUT_DIR / output_filename\<close>) and turned
  into a string. A pure POSIX path is a root (empty, \<open>/\<close> or \<open>//\<close>) and a list of parts;
  parsing a string drops the empty parts and the parts \<open>.\<close>, so repeated and trailing
  separators disappear; \<open>a / b\<close> is \<open>b\<close> when \<open>b\<close> is absolute and the parts of \<open>a\<close>
  followed by those of \<open>b\<close> otherwise; the string of a path with neither root nor parts is
  \<open>.\<close>.
\<close>

fun split_slash :: "string \<Rightarrow> string list" where
  \<comment> \<open>\<open>s.split('/')\<close>\<close>
  "split_slash [] = [[]]"
| "split_slash (c # cs) =
     (if c = CHR ''/'' then [] # split_slash cs
      else (case split_slash cs of
              [] \<Rightarrow> [[c]]
            | x # xs \<Rightarrow> (c # x) # xs))"

fun join_slash :: "string list \<Rightarrow> string" where
  \<comment> \<open>\<open>'/'.join(parts)\<close>\<close>
  "join_slash [] = []"
| "join_slash [x] = x"
| "join_slash (x # y # ys) = x @ ''/'' @ join_slash (y # ys)"

definition splitroot :: "string \<Rightarrow> string \<times> string" where
  \<comment> \<open>exactly two leading separators are the root \<open>//\<close>, any other number the root \<open>/\<close>\<close>
  "splitroot part =
     (let k = length (takeWhile (\<lambda>c. c = CHR ''/'') part);
          stripped_part = dropWhile (\<lambda>c. c = CHR ''/'') part
      in if k = 0 then ([], part)
         else if k = 2 then (''//'', stripped_part)
         else (''/'', stripped_part))"

definition parse_path :: "string \<Rightarrow> string \<times> string list" where
  "parse_path s =
     (case splitroot s of
        (rt, rel) \<Rightarrow> (rt, filter (\<lambda>x. x \<noteq> [] \<and> x \<noteq> ''.'') (split_slash rel)))"

definition path_str :: "string \<times> string list \<Rightarrow> string" where
  \<comment> \<open>\<open>str(path)\<close>\<close>
  "path_str p =
     (case p of (rt, parts) \<Rightarrow>
        (let s = rt @ join_slash parts in if s = [] then ''.'' else s))"

definition pathlib_div :: "path \<Rightarrow> string \<Rightarrow> path" where
  \<comment> \<open>\<open>str(Path(a) / b)\<close>\<close>
  "pathlib_div a b =
     (case parse_path b of
        (rt2, parts2) \<Rightarrow>
          if rt2 \<noteq> [] then path_str (rt2, parts2)
          else (case parse_path a of (rt, parts) \<Rightarrow> path_str (rt, parts @ parts2)))"

section \<open>The ffmpeg filter graph\<close>

text \<open>
  The graph that the \<^verbatim>\<open>ffmpeg\<close> binding builds, one constructor per call the source
  makes: \<^verbatim>\<open>ffmpeg.input(path, **kw)\<close>, \<^verbatim>\<open>ffmpeg.filter(streams, name, *args, **kw)\<close>
  (also the method form \<^verbatim>\<open>stream.filter(name, ...)\<close>), \<^verbatim>\<open>ffmpeg.overlay(main, over, **kw)\<close>,
  the \<^verbatim>\<open>.audio\<close> selector, \<^verbatim>\<open>ffmpeg.output(streams..., path, **kw)\<close> and
  \<^verbatim>\<open>.overwrite_output()\<close>. Keyword arguments are kept in source order.
\<close>

type_synonym kwargs = "(string \<times> pyval) list"

datatype stream =
    Input path kwargs
  | Filter "stream list" string "pyval list" kwargs
  | Overlay stream stream kwargs
  | Audio stream
  | Output "stream list" path kwargs
  | OverwriteOutput stream

fun out_path :: "stream \<Rightarrow> path option" where
  "out_path (Output _ p _) = Some p"
| "out_path (OverwriteOutput s) = out_path s"
| "out_path _ = None"

section \<open>Projects, the outside world and its observable state\<close>

record VideoProject =
  vp_id :: string
  name :: string
  images :: "string list"
  duration :: int
  music_file :: "string option"
  logo_file :: "string option"
  logo_opacity :: pyfloat
  resolution :: string
  created_at :: int
  video_url :: "string option"
  status :: string

text \<open>
  One call of \<^verbatim>\<open>create_ken_burns_effect\<close>, as recorded in the history: its seven
  arguments and the value it returned.
\<close>

record kb_call =
  kb_image :: path
  kb_output :: path
  kb_duration :: pyfloat
  kb_zoom_start :: pyfloat
  kb_zoom_end :: pyfloat
  kb_pan_x :: pyval
  kb_pan_y :: pyval
  kb_result :: bool

text \<open>
  The state the code acts on: the project collection of the database (keyed by the
  \<^verbatim>\<open>id\<close> field, which is what every query of the source filters on), the files and
  the temporary directories on disk, and two history variables that the source does not
  have: every \<^verbatim>\<open>create_ken_burns_effect\<close> call and every encoder run (the graph, the
  \<^verbatim>\<open>overwrite_output\<close> flag of \<^verbatim>\<open>run\<close>, and whether the encoder succeeded), in order.
\<close>

record world =
  db :: "string \<rightharpoonup> VideoProject"
  files :: "path \<rightharpoonup> bytes"
  dirs :: "path set"
  kb_calls :: "kb_call list"
  ffmpeg_runs :: "(stream \<times> bool \<times> bool) list"

text \<open>
  What the code cannot decide is a parameter: whether a base64 string decodes, whether a
  file can be written, whether the image library can read a file and the size it finds,
  whether the encoder succeeds on a graph (and the bytes it writes), the directory
  \<^verbatim>\<open>mkdtemp\<close> creates, whether \<^verbatim>\<open>rmtree\<close> succeeds, the directory of the module (\<^verbatim>\<open>ROOT_DIR\<close>), and
  how the web framework prints an \<^verbatim>\<open>HTTPException\<close> (\<^verbatim>\<open>str(e)\<close>). \<open>None\<close> and \<open>False\<close>
  stand for the call raising.
\<close>

datatype http_exception = HTTPException int string

record env =
  root_dir :: path
  str_exc :: "http_exception \<Rightarrow> string"
  b64decode :: "string \<Rightarrow> bytes option"
  can_write :: "path \<Rightarrow> bool"
  image_size :: "bytes \<Rightarrow> (nat \<times> nat) option"
  ffmpeg_exec :: "(path \<rightharpoonup> bytes) \<Rightarrow> stream \<Rightarrow> bytes option"
  tmpdir :: "path option"
  rmtree_ok :: "path \<Rightarrow> bool"

definition OUTPUT_DIR :: "env \<Rightarrow> path" where
  \<comment> \<open>\<open>ROOT_DIR / "outputs"\<close>\<close>
  "OUTPUT_DIR e = pathlib_div (root_dir e) ''outputs''"

definition mkdtemp :: "env \<Rightarrow> world \<Rightarrow> (error + path) \<times> world" where
  "mkdtemp e w =
     (case tmpdir e of
        None \<Rightarrow> (Inl OSError, w)
      | Some d \<Rightarrow> (Inr d, w\<lparr>dirs := insert d (dirs w)\<rparr>))"

definition write_file :: "env \<Rightarrow> world \<Rightarrow> path \<Rightarrow> bytes \<Rightarrow> (error + unit) \<times> world" where
  \<comment> \<open>\<open>with open(path, 'wb') as f: f.write(data)\<close>\<close>
  "write_file e w p data =
     (if can_write e p then (Inr (), w\<lparr>files := (files w)(p \<mapsto> data)\<rparr>)
      else (Inl OSError, w))"

definition rmtree :: "env \<Rightarrow> world \<Rightarrow> path \<Rightarrow> (error + unit) \<times> world" where
  \<comment> \<open>\<open>shutil.rmtree(d)\<close>: the directory and every file below it\<close>
  "rmtree e w d =
     (if rmtree_ok e d
      then (Inr (), w\<lparr>files := (\<lambda>p. if prefix (d @ ''/'') p then None else files w p),
                       dirs := dirs w - {d}\<rparr>)
      else (Inl OSError, w))"

definition image_open :: "env \<Rightarrow> world \<Rightarrow> path \<Rightarrow> error + (nat \<times> nat)" where
  \<comment> \<open>\<open>with Image.open(image_path) as img: width, height = img.size\<close>\<close>
  "image_open e w p =
     (case files w p of
        None \<Rightarrow> Inl FileNotFoundError
      | Some data \<Rightarrow>
          (case image_size e data of
             None \<Rightarrow> Inl UnidentifiedImageError
           | Some sz \<Rightarrow> Inr sz))"

definition ffmpeg_run :: "env \<Rightarrow> world \<Rightarrow> stream \<Rightarrow> bool \<Rightarrow> (error + unit) \<times> world" where
  \<comment> \<open>\<open>ffmpeg.run(stream, overwrite_output=flag, quiet=True)\<close>: on success the output
      file holds what the encoder wrote\<close>
  "ffmpeg_run e w s flag =
     (case ffmpeg_exec e (files w) s of
        None \<Rightarrow> (Inl FfmpegError, w\<lparr>ffmpeg_runs := ffmpeg_runs w @ [(s, flag, False)]\<rparr>)
      | Some content \<Rightarrow>
          (Inr (),
           w\<lparr>files := (case out_path s of None \<Rightarrow> files w | Some p \<Rightarrow> (files w)(p \<mapsto> content)),
             ffmpeg_runs := ffmpeg_runs w @ [(s, flag, True)]\<rparr>))"

section \<open>\<open>create_ken_burns_effect\<close>\<close>

definition zoom_filter :: "nat \<Rightarrow> nat \<Rightarrow> pyfloat \<Rightarrow> error + fpart list" where
  \<comment> \<open>\<open>f"scale={int(width*zoom_start)}:{int(height*zoom_start)}"\<close>\<close>
  "zoom_filter width height zoom_start =
     (case py_int (fmul (float_of_int (int width)) zoom_start) of
        Inl err \<Rightarrow> Inl err
      | Inr a \<Rightarrow>
          (case py_int (fmul (float_of_int (int height)) zoom_start) of
             Inl err \<Rightarrow> Inl err
           | Inr b \<Rightarrow> Inr [Lit ''scale='', Val (PInt a), Lit '':'', Val (PInt b)]))"

definition pan_filter :: "int \<Rightarrow> int \<Rightarrow> pyval \<Rightarrow> pyval \<Rightarrow> fpart list" where
  \<comment> \<open>\<open>f"crop={target_width}:{target_height}:{pan_x}:{pan_y}"\<close>\<close>
  "pan_filter target_width target_height pan_x pan_y =
     [Lit ''crop='', Val (PInt target_width), Lit '':'', Val (PInt target_height),
      Lit '':'', Val pan_x, Lit '':'', Val pan_y]"

definition ken_burns_stream :: "path \<Rightarrow> path \<Rightarrow> pyfloat \<Rightarrow> int \<Rightarrow> int \<Rightarrow> int \<Rightarrow> stream" where
  \<comment> \<open>the chain \<open>ffmpeg.input(...).filter('scale', ...).filter('zoompan', ...)
      .output(...).overwrite_output()\<close>; \<open>d\<close> is \<open>int(duration*30)\<close>\<close>
  "ken_burns_stream image_path output_path duration' d target_width target_height =
     OverwriteOutput
       (Output
          [Filter
             [Filter [Input image_path [(''loop'', PInt 1), (''t'', PFloat duration')]]
                ''scale'' [PInt target_width, PInt target_height] []]
             ''zoompan'' []
             [(''z'', PStr ''min(zoom+0.0015,1.5)''), (''d'', PInt d),
              (''x'', PStr ''iw/2-(iw/zoom/2)''), (''y'', PStr ''ih/2-(ih/zoom/2)''),
              (''s'', PStr (show_nat (nat target_width) @ ''x'' @ show_nat (nat target_height)))]]
          output_path
          [(''vcodec'', PStr ''libx264''), (''pix_fmt'', PStr ''yuv420p''), (''r'', PInt 30)])"

definition ken_burns_try ::
  "env \<Rightarrow> world \<Rightarrow> path \<Rightarrow> path \<Rightarrow> pyfloat \<Rightarrow> pyfloat \<Rightarrow> pyfloat \<Rightarrow> pyval \<Rightarrow> pyval
   \<Rightarrow> (error + unit) \<times> world" where
  \<comment> \<open>the body of the \<open>try\<close> block\<close>
  "ken_burns_try e w image_path output_path duration' zoom_start zoom_end pan_x pan_y =
     (case image_open e w image_path of
        Inl err \<Rightarrow> (Inl err, w)
      | Inr (width, height) \<Rightarrow>
          (let target_width = 1080; target_height = 1920 in
           case zoom_filter width height zoom_start of
             Inl err \<Rightarrow> (Inl err, w)
           | Inr zoom_filter_str \<Rightarrow>
               (let pan_filter_str = pan_filter target_width target_height pan_x pan_y in
                case py_int (fmul duration' (float_of_int 30)) of
                  Inl err \<Rightarrow> (Inl err, w)
                | Inr d \<Rightarrow>
                    ffmpeg_run e w
                      (ken_burns_stream image_path output_path duration' d
                         target_width target_height)
                      False)))"

definition create_ken_burns_effect ::
  "env \<Rightarrow> world \<Rightarrow> path \<Rightarrow> path \<Rightarrow> pyfloat \<Rightarrow> pyfloat \<Rightarrow> pyfloat \<Rightarrow> pyval \<Rightarrow> pyval
   \<Rightarrow> bool \<times> world" where
  \<comment> \<open>\<open>return True\<close> after the \<open>try\<close> body, \<open>return False\<close> from \<open>except Exception\<close>;
      the call and its result are appended to the history\<close>
  "create_ken_burns_effect e w image_path output_path duration' zoom_start zoom_end pan_x pan_y =
     (case ken_burns_try e w image_path output_path duration' zoom_start zoom_end pan_x pan_y of
        (r, w') \<Rightarrow>
          (let ok = (case r of Inl _ \<Rightarrow> False | Inr _ \<Rightarrow> True) in
           (ok,
            w'\<lparr>kb_calls := kb_calls w' @
                 [\<lparr>kb_image = image_path, kb_output = output_path, kb_duration = duration',
                   kb_zoom_start = zoom_start, kb_zoom_end = zoom_end,
                   kb_pan_x = pan_x, kb_pan_y = pan_y, kb_result = ok\<rparr>]\<rparr>)))"

section \<open>\<open>create_video_from_images\<close>\<close>

definition render_image ::
  "env \<Rightarrow> VideoProject \<Rightarrow> path \<Rightarrow> nat \<Rightarrow> string \<Rightarrow> world \<Rightarrow> (error + path option) \<times> world" where
  \<comment> \<open>the body of \<open>for i, image_b64 in enumerate(project.images)\<close>: \<open>Some clip_path\<close>
      when the clip is appended to \<open>video_clips\<close>, \<open>None\<close> when the image is skipped\<close>
  "render_image e project temp_dir i image_b64 w =
     (case b64decode e image_b64 of
        None \<Rightarrow> (Inl Base64Error, w)
      | Some image_data \<Rightarrow>
          (let image_path = path_join temp_dir (''image_'' @ show_nat i @ ''.jpg'') in
           case write_file e w image_path image_data of
             (Inl err, w1) \<Rightarrow> (Inl err, w1)
           | (Inr _, w1) \<Rightarrow>
               (let clip_path = path_join temp_dir (''clip_'' @ show_nat i @ ''.mp4'') in
                case py_truediv (duration project) (int (length (images project))) of
                  Inl err \<Rightarrow> (Inl err, w1)
                | Inr clip_duration \<Rightarrow>
                    (let zoom_start = fadd (Finite 1) (fmul (float_of_int (int i)) (Finite (1 / 10)));
                         zoom_end = fadd (Finite (6 / 5)) (fmul (float_of_int (int i)) (Finite (1 / 10)));
                         pan_x = PInt ((int i mod 2) * 100);
                         pan_y = PInt ((int i mod 3) * 50)
                     in case create_ken_burns_effect e w1 image_path clip_path clip_duration
                               zoom_start zoom_end pan_x pan_y of
                          (True, w2) \<Rightarrow> (Inr (Some clip_path), w2)
                        | (False, w2) \<Rightarrow> (Inr None, w2)))))"

fun render_loop ::
  "env \<Rightarrow> VideoProject \<Rightarrow> path \<Rightarrow> (nat \<times> string) list \<Rightarrow> path list \<Rightarrow> world
   \<Rightarrow> (error + path list) \<times> world" where
  \<comment> \<open>the \<open>for\<close> loop over the remaining \<open>(i, image_b64)\<close> pairs, \<open>video_clips\<close> so far\<close>
  "render_loop e project temp_dir [] video_clips w = (Inr video_clips, w)"
| "render_loop e project temp_dir ((i, image_b64) # rest) video_clips w =
     (case render_image e project temp_dir i image_b64 w of
        (Inl err, w') \<Rightarrow> (Inl err, w')
      | (Inr None, w') \<Rightarrow> render_loop e project temp_dir rest video_clips w'
      | (Inr (Some clip_path), w') \<Rightarrow>
          render_loop e project temp_dir rest (video_clips @ [clip_path]) w')"

definition xfade :: "stream \<Rightarrow> stream \<Rightarrow> stream" where
  \<comment> \<open>\<open>ffmpeg.filter([stream, inputs[i]], 'xfade', transition='fade', duration=0.5)\<close>\<close>
  "xfade s t = Filter [s, t] ''xfade'' []
                 [(''transition'', PStr ''fade''), (''duration'', PFloat (Finite (1 / 2)))]"

definition concat_clips :: "path list \<Rightarrow> error + stream" where
  \<comment> \<open>\<open>inputs[0]\<close> raises IndexError on an empty list\<close>
  "concat_clips video_clips =
     (let inputs = map (\<lambda>clip. Input clip []) video_clips in
      if length inputs = 1 then Inr (inputs ! 0)
      else if inputs = [] then Inl IndexError
      else Inr (foldl (\<lambda>s i. xfade s (inputs ! i)) (inputs ! 0) [1..<length inputs]))"

definition truthy :: "string option \<Rightarrow> bool" where
  \<comment> \<open>\<open>if project.logo_file:\<close> on an optional string\<close>
  "truthy v = (case v of None \<Rightarrow> False | Some s \<Rightarrow> s \<noteq> [])"

definition add_logo ::
  "env \<Rightarrow> world \<Rightarrow> VideoProject \<Rightarrow> path \<Rightarrow> stream \<Rightarrow> (error + stream) \<times> world" where
  "add_logo e w project temp_dir s =
     (if truthy (logo_file project) then
        (case b64decode e (the (logo_file project)) of
           None \<Rightarrow> (Inl Base64Error, w)
         | Some logo_data \<Rightarrow>
             (let logo_path = path_join temp_dir ''logo.png'' in
              case write_file e w logo_path logo_data of
                (Inl err, w1) \<Rightarrow> (Inl err, w1)
              | (Inr _, w1) \<Rightarrow>
                  (Inr (Overlay s (Input logo_path [])
                          [(''x'', PStr ''W-w-20''), (''y'', PStr ''H-h-20''),
                           (''eval'', PStr ''init'')]),
                   w1)))
      else (Inr s, w))"

definition add_music ::
  "env \<Rightarrow> world \<Rightarrow> VideoProject \<Rightarrow> path \<Rightarrow> stream \<Rightarrow> path \<Rightarrow> (error + stream) \<times> world" where
  "add_music e w project temp_dir s output_path =
     (if truthy (music_file project) then
        (case b64decode e (the (music_file project)) of
           None \<Rightarrow> (Inl Base64Error, w)
         | Some music_data \<Rightarrow>
             (let music_path = path_join temp_dir ''music.mp3'' in
              case write_file e w music_path music_data of
                (Inl err, w1) \<Rightarrow> (Inl err, w1)
              | (Inr _, w1) \<Rightarrow>
                  (let audio = Audio (Input music_path []) in
                   (Inr (Output [s, audio] output_path
                           [(''vcodec'', PStr ''libx264''), (''acodec'', PStr ''aac''),
                            (''pix_fmt'', PStr ''yuv420p'')]),
                    w1))))
      else (Inr (Output [s] output_path
                   [(''vcodec'', PStr ''libx264''), (''pix_fmt'', PStr ''yuv420p'')]),
            w))"

definition video_try :: "env \<Rightarrow> world \<Rightarrow> VideoProject \<Rightarrow> path \<Rightarrow> (error + unit) \<times> world" where
  \<comment> \<open>the body of the \<open>try\<close> block of \<open>create_video_from_images\<close>\<close>
  "video_try e w project output_path =
     (case mkdtemp e w of
        (Inl err, w0) \<Rightarrow> (Inl err, w0)
      | (Inr temp_dir, w0) \<Rightarrow>
     (case render_loop e project temp_dir (enumerate 0 (images project)) [] w0 of
        (Inl err, w1) \<Rightarrow> (Inl err, w1)
      | (Inr video_clips, w1) \<Rightarrow>
     if video_clips = [] then (Inl (PyException ''No video clips created''), w1)
     else
     (case concat_clips video_clips of
        Inl err \<Rightarrow> (Inl err, w1)
      | Inr s \<Rightarrow>
     (case add_logo e w1 project temp_dir s of
        (Inl err, w2) \<Rightarrow> (Inl err, w2)
      | (Inr s2, w2) \<Rightarrow>
     (case add_music e w2 project temp_dir s2 output_path of
        (Inl err, w3) \<Rightarrow> (Inl err, w3)
      | (Inr s3, w3) \<Rightarrow>
     (case ffmpeg_run e w3 s3 True of
        (Inl err, w4) \<Rightarrow> (Inl err, w4)
      | (Inr _, w4) \<Rightarrow> rmtree e w4 temp_dir))))))"

definition create_video_from_images :: "env \<Rightarrow> world \<Rightarrow> VideoProject \<Rightarrow> path \<Rightarrow> bool \<times> world" where
  \<comment> \<open>\<open>return True\<close> after the \<open>try\<close> body, \<open>return False\<close> from \<open>except Exception\<close>\<close>
  "create_video_from_images e w project output_path =
     (case video_try e w project output_path of
        (Inl _, w') \<Rightarrow> (False, w')
      | (Inr _, w') \<Rightarrow> (True, w'))"

section \<open>\<open>generate_video\<close>\<close>

definition update_one :: "world \<Rightarrow> string \<Rightarrow> (VideoProject \<Rightarrow> VideoProject) \<Rightarrow> world" where
  \<comment> \<open>\<open>db.video_projects.update_one({"id": project_id}, {"$set": ...})\<close>: no document
      matches, nothing changes\<close>
  "update_one w project_id upd =
     (case db w project_id of
        None \<Rightarrow> w
      | Some p \<Rightarrow> w\<lparr>db := (db w)(project_id \<mapsto> upd p)\<rparr>)"

definition output_filename :: "string \<Rightarrow> string \<Rightarrow> string" where
  \<comment> \<open>\<open>f"{project_id}_{project.resolution}.mp4"\<close>\<close>
  "output_filename project_id res = project_id @ ''_'' @ res @ ''.mp4''"

definition generate_video ::
  "env \<Rightarrow> world \<Rightarrow> string \<Rightarrow> (http_exception + (string \<times> string) list) \<times> world" where
  "generate_video e w project_id =
     (case db w project_id of
        None \<Rightarrow> (Inl (HTTPException 404 ''Project not found''), w)
      | Some project \<Rightarrow>
          if images project = [] then (Inl (HTTPException 400 ''No images uploaded''), w)
          else
            (let w1 = update_one w project_id (\<lambda>p. p\<lparr>status := ''processing''\<rparr>);
                 filename = output_filename project_id (resolution project);
                 output_path = pathlib_div (OUTPUT_DIR e) filename
             in case create_video_from_images e w1 project output_path of
                  (True, w2) \<Rightarrow>
                    (Inr [(''message'', ''Video generated successfully''),
                          (''video_url'', ''/api/videos/'' @ filename)],
                     update_one w2 project_id
                       (\<lambda>p. p\<lparr>video_url := Some (''/api/videos/'' @ filename),
                               status := ''completed''\<rparr>))
                | (False, w2) \<Rightarrow>
                    \<comment> \<open>the \<open>else\<close> branch sets \<open>failed\<close> and raises inside the \<open>try\<close>; the
                        \<open>except Exception\<close> clause catches that, sets \<open>failed\<close> again and
                        raises the exception the caller sees\<close>
                    (let w3 = update_one w2 project_id (\<lambda>p. p\<lparr>status := ''failed''\<rparr>);
                         exc = HTTPException 500 ''Video generation failed'';
                         w4 = update_one w3 project_id (\<lambda>p. p\<lparr>status := ''failed''\<rparr>)
                     in (Inl (HTTPException 500 (''Video generation failed: '' @ str_exc e exc)),
                         w4))))"

section \<open>Notions used to state the claims\<close>

text \<open>The rational value of a finite float (0 for the special values).\<close>

fun float_value :: "pyfloat \<Rightarrow> rat" where
  "float_value (Finite r) = r"
| "float_value _ = 0"

text \<open>An encoder graph with every file name blanked: what is left is the filter chain.\<close>

fun erase_paths :: "stream \<Rightarrow> stream" where
  "erase_paths (Input p kw) = Input [] kw"
| "erase_paths (Filter ss n args kw) = Filter (map erase_paths ss) n args kw"
| "erase_paths (Overlay a b kw) = Overlay (erase_paths a) (erase_paths b) kw"
| "erase_paths (Audio a) = Audio (erase_paths a)"
| "erase_paths (Output ss p kw) = Output (map erase_paths ss) [] kw"
| "erase_paths (OverwriteOutput a) = OverwriteOutput (erase_paths a)"

text \<open>A path part that parsing keeps as it is: not empty, not \<open>.\<close>, without a separator.\<close>

definition valid_part :: "string \<Rightarrow> bool" where
  "valid_part x = (x \<noteq> [] \<and> x \<noteq> ''.'' \<and> CHR ''/'' \<notin> set x)"

section \<open>Example inputs\<close>

text \<open>
  Concrete environments, projects and worlds on which the theorems below are instantiated:
  an environment in which every external call succeeds except that the image library
  rejects the bytes \<open>corrupt\<close>; one in which the final encode of project \<open>p1\<close> fails; one
  for a second run, with another temporary directory and other encoder output; a
  two-image project, one without images, one whose second image is corrupt and one with
  a logo; a world whose database holds the four projects, and the same world with one
  image file on disk.
\<close>

definition env_ok :: env where
  "env_ok = \<lparr>root_dir = ''/app'',
     str_exc = (\<lambda>x. case x of HTTPException c d \<Rightarrow> d),
     b64decode = (\<lambda>s. Some s),
     can_write = (\<lambda>_. True),
     image_size = (\<lambda>data. if data = ''corrupt'' then None else Some (1080, 1920)),
     ffmpeg_exec = (\<lambda>fs s. Some ''video''),
     tmpdir = Some ''/tmp/job'',
     rmtree_ok = (\<lambda>_. True)\<rparr>"

definition env_encode_fails :: env where
  "env_encode_fails =
     env_ok\<lparr>ffmpeg_exec :=
       (\<lambda>fs s. if out_path s = Some ''/app/outputs/p1_1080p.mp4'' then None else Some ''clip'')\<rparr>"

definition env_again :: env where
  "env_again = env_ok\<lparr>tmpdir := Some ''/tmp/job2'', ffmpeg_exec := (\<lambda>fs s. Some ''video2'')\<rparr>"

definition demo :: VideoProject where
  "demo = \<lparr>vp_id = ''p1'', name = ''demo'', images = [''a'', ''b''], duration = 30,
     music_file = None, logo_file = None, logo_opacity = Finite (4 / 5),
     resolution = ''1080p'', created_at = 0, video_url = None, status = ''draft''\<rparr>"

definition blank :: VideoProject where
  "blank = demo\<lparr>vp_id := ''p0'', images := []\<rparr>"

definition trio :: VideoProject where
  "trio = demo\<lparr>vp_id := ''p3'', images := [''a'', ''corrupt'', ''c'']\<rparr>"

definition branded :: VideoProject where
  "branded = demo\<lparr>vp_id := ''p4'', logo_file := Some ''logo''\<rparr>"

definition w0 :: world where
  "w0 = \<lparr>db = [''p1'' \<mapsto> demo, ''p0'' \<mapsto> blank, ''p3'' \<mapsto> trio, ''p4'' \<mapsto> branded],
          files = Map.empty, dirs = {}, kb_calls = [], ffmpeg_runs = []\<rparr>"

definition w_img :: world where
  "w_img = w0\<lparr>files := [''/tmp/in.jpg'' \<mapsto> ''a'']\<rparr>"

section \<open>Frame and invariant lemmas\<close>

lemmas pipeline_defs =
  generate_video_def update_one_def output_filename_def
  create_video_from_images_def video_try_def mkdtemp_def render_image_def write_file_def
  py_truediv_def fl_def float_of_int_def create_ken_burns_effect_def ken_burns_try_def
  image_open_def zoom_filter_def pan_filter_def ffmpeg_run_def ken_burns_stream_def
  round_double_def log2_floor_def round_half_even_def bits.simps
  path_join_def pathlib_div_def parse_path_def splitroot_def path_str_def
  OUTPUT_DIR_def concat_clips_def xfade_def add_logo_def add_music_def truthy_def
  rmtree_def enumerate_eq_zip digit_def Let_def

lemmas fixture_defs = env_ok_def env_encode_fails_def env_again_def demo_def blank_def trio_def branded_def w0_def w_img_def

subsection \<open>Rounding to a double\<close>

lemma bits_bounds: "0 < n \<Longrightarrow> 2 ^ (bits n - 1) \<le> n \<and> n < 2 ^ bits n"
proof (induction n rule: bits.induct)
  case (1 n)
  show ?case
  proof (cases "n div 2 = 0")
    case True
    with "1.prems" have "n = 1" by (auto simp: div_eq_0_iff)
    then show ?thesis by (simp add: bits.simps)
  next
    case False
    then have pos: "0 < n div 2" by simp
    from "1.IH"[OF _ pos] "1.prems"
    have ih: "2 ^ (bits (n div 2) - 1) \<le> n div 2" "n div 2 < 2 ^ bits (n div 2)" by simp_all
    have bpos: "0 < bits (n div 2)" using pos by (simp add: bits.simps)
    have b: "bits n = Suc (bits (n div 2))" using "1.prems" by (simp add: bits.simps)
    have "2 ^ (bits n - 1) = 2 * 2 ^ (bits (n div 2) - 1)"
      using b bpos by (cases "bits (n div 2)") simp_all
    also have "\<dots> \<le> 2 * (n div 2)" using ih(1) by simp
    also have "\<dots> \<le> n" by simp
    finally have lo: "2 ^ (bits n - 1) \<le> n" .
    have "n < 2 * (n div 2) + 2" by presburger
    also have "\<dots> \<le> 2 * 2 ^ bits (n div 2)" using ih(2) by simp
    finally have hi: "n < 2 ^ bits n" using b by simp
    from lo hi show ?thesis ..
  qed
qed

lemma log2_floor_bounds:
  assumes "0 < r"
  shows "2 powi (log2_floor r) \<le> r \<and> r < 2 powi (log2_floor r + 1)"
proof (cases "1 \<le> r")
  case True
  let ?n = "nat \<lfloor>r\<rfloor>"
  have n1: "0 < ?n" using True by simp
  from bits_bounds[OF n1] have b: "2 ^ (bits ?n - 1) \<le> ?n" "?n < 2 ^ bits ?n" by simp_all
  have bpos: "0 < bits ?n" using n1 by (simp add: bits.simps)
  have e: "log2_floor r = int (bits ?n - 1)" using True bpos by (simp add: log2_floor_def)
  have "(2::rat) powi (log2_floor r) = of_nat (2 ^ (bits ?n - 1))" unfolding e by simp
  also have "\<dots> \<le> of_nat ?n" using b(1) by (simp only: of_nat_le_iff)
  also have "\<dots> \<le> r" using True by (simp add: of_nat_nat)
  finally have lo: "2 powi (log2_floor r) \<le> r" .
  have "r < of_int (\<lfloor>r\<rfloor> + 1)" by linarith
  also have "\<lfloor>r\<rfloor> + 1 = int (?n + 1)" using True by simp
  also have "(of_int (int (?n + 1)) :: rat) = of_nat (?n + 1)" by simp
  also have "\<dots> \<le> of_nat (2 ^ bits ?n)"
  proof -
    have "?n + 1 \<le> 2 ^ bits ?n" by (metis Suc_eq_plus1 Suc_leI b(2))
    then show ?thesis by (simp only: of_nat_le_iff)
  qed
  also have "\<dots> = 2 powi (log2_floor r + 1)"
  proof -
    have "log2_floor r + 1 = int (bits ?n)" using e bpos by simp
    then show ?thesis by simp
  qed
  finally have hi: "r < 2 powi (log2_floor r + 1)" .
  from lo hi show ?thesis ..
next
  case False
  let ?s = "1 / r"
  let ?m = "nat (\<lceil>?s\<rceil> - 1)"
  have s1: "1 < ?s" using False assms by simp
  have c2: "2 \<le> \<lceil>?s\<rceil>" using s1 by (simp add: le_ceiling_iff) 
  have m1: "0 < ?m" using c2 by simp
  have cpos: "0 \<le> \<lceil>?s\<rceil> - 1" using c2 by linarith
  have om: "(of_nat ?m :: rat) = of_int (\<lceil>?s\<rceil> - 1)" by (rule of_nat_nat[OF cpos])
  have ms: "of_nat ?m < ?s" "?s \<le> of_nat ?m + 1"
  proof -
    have "of_int (\<lceil>?s\<rceil> - 1) < ?s" by linarith
    then show "of_nat ?m < ?s" unfolding om .
    have "?s \<le> of_int \<lceil>?s\<rceil>" by linarith
    moreover have "(of_int \<lceil>?s\<rceil> :: rat) = of_int (\<lceil>?s\<rceil> - 1) + 1" by simp
    ultimately show "?s \<le> of_nat ?m + 1" unfolding om by linarith
  qed
  from bits_bounds[OF m1] have b: "2 ^ (bits ?m - 1) \<le> ?m" "?m < 2 ^ bits ?m" by simp_all
  have bpos: "0 < bits ?m" using m1 by (simp add: bits.simps)
  have e: "log2_floor r = - int (bits ?m)" using False by (simp add: log2_floor_def)
  have "?s \<le> of_nat (?m + 1)" using ms(2) by simp
  also have "\<dots> \<le> of_nat (2 ^ bits ?m)"
  proof -
    have "?m + 1 \<le> 2 ^ bits ?m" by (metis Suc_eq_plus1 Suc_leI b(2))
    then show ?thesis by (simp only: of_nat_le_iff)
  qed
  finally have "?s \<le> 2 ^ bits ?m" by simp
  then have "1 / 2 ^ bits ?m \<le> r" using assms
    by (simp add: field_simps)
  then have lo: "2 powi (log2_floor r) \<le> r" unfolding e by (simp add: power_int_minus_divide)
  have "(of_nat (2 ^ (bits ?m - 1)) :: rat) \<le> of_nat ?m" using b(1) by (simp only: of_nat_le_iff)
  also note ms(1)
  finally have "(of_nat (2 ^ (bits ?m - 1)) :: rat) < ?s" .
  then have "2 ^ (bits ?m - 1) < ?s" by (simp only: of_nat_power of_nat_numeral)
  then have "r < 1 / 2 ^ (bits ?m - 1)" using assms by (simp add: field_simps)
  moreover have "log2_floor r + 1 = - int (bits ?m - 1)" using e bpos by simp
  ultimately have hi: "r < 2 powi (log2_floor r + 1)" by (simp add: power_int_minus_divide)
  from lo hi show ?thesis ..
qed

lemma round_half_even_bound: "\<bar>of_int (round_half_even m) - m\<bar> \<le> 1 / 2"
proof -
  have "of_int \<lfloor>m\<rfloor> \<le> m" "m < of_int \<lfloor>m\<rfloor> + 1" by linarith+
  then show ?thesis
    by (auto simp: round_half_even_def Let_def abs_le_iff)
qed

lemma round_double_error:
  "\<bar>round_double r - r\<bar> \<le> \<bar>r\<bar> / 2 ^ 53 + 1 / 2 ^ 1075"
proof (cases "r = 0")
  case True
  then show ?thesis by (simp add: round_double_def)
next
  case False
  let ?e = "log2_floor \<bar>r\<bar>"
  let ?q = "max (?e - 52) (- 1074)"
  let ?k = "round_half_even (r / 2 powi ?q)"
  have pq: "(0::rat) < 2 powi ?q" by (simp add: zero_less_power_int)
  have rd: "round_double r = of_int ?k * 2 powi ?q"
    using False by (simp add: round_double_def Let_def)
  have "\<bar>of_int ?k * 2 powi ?q - r\<bar> = \<bar>of_int ?k - r / 2 powi ?q\<bar> * 2 powi ?q"
  proof -
    have "of_int ?k * 2 powi ?q - r = (of_int ?k - r / 2 powi ?q) * 2 powi ?q"
      using pq by (simp add: field_simps)
    then show ?thesis using pq by (simp add: abs_mult)
  qed
  also have "\<dots> \<le> (1 / 2) * 2 powi ?q"
    using round_half_even_bound[of "r / 2 powi ?q"] pq by (intro mult_right_mono) simp_all
  finally have main: "\<bar>round_double r - r\<bar> \<le> 2 powi ?q / 2" unfolding rd by simp
  from False have "0 < \<bar>r\<bar>" by simp
  from log2_floor_bounds[OF this] have lo: "2 powi ?e \<le> \<bar>r\<bar>" by simp
  show ?thesis
  proof (cases "- 1074 \<le> ?e - 52")
    case True
    then have q: "?q = ?e - 52" by simp
    have "(2::rat) powi (?e - 52) = 2 powi ?e / 2 ^ 52"
      by (simp add: power_int_diff)
    then have "(2::rat) powi ?q / 2 = 2 powi ?e / 2 ^ 53" unfolding q by simp
    also have "\<dots> \<le> \<bar>r\<bar> / 2 ^ 53" using lo by (simp add: divide_right_mono)
    finally have "(2::rat) powi ?q / 2 \<le> \<bar>r\<bar> / 2 ^ 53" .
    moreover have "(0::rat) \<le> 1 / 2 ^ 1075" by simp
    ultimately show ?thesis using main by linarith
  next
    case F2: False
    then have q: "?q = - 1074" by simp
    have "(2::rat) powi ?q / 2 = 1 / 2 ^ 1075" unfolding q
      by (simp add: power_int_minus_divide)
    with main have "\<bar>round_double r - r\<bar> \<le> 1 / 2 ^ 1075" by simp
    moreover have "0 \<le> \<bar>r\<bar> / 2 ^ 53" by simp
    ultimately show ?thesis by linarith
  qed
qed

subsection \<open>Paths\<close>

lemma split_slash_nonempty: "split_slash s \<noteq> []"
  by (induction s) (auto split: list.splits)

lemma split_slash_no_sep: "x \<in> set (split_slash s) \<Longrightarrow> CHR ''/'' \<notin> set x"
  by (induction s arbitrary: x) (auto split: list.splits if_splits)

lemma split_slash_plain: "CHR ''/'' \<notin> set s \<Longrightarrow> split_slash s = [s]"
  by (induction s) auto

lemma split_slash_append:
  "CHR ''/'' \<notin> set a \<Longrightarrow> split_slash (a @ CHR ''/'' # b) = a # split_slash b"
  by (induction a) auto

lemma split_join:
  "ps \<noteq> [] \<Longrightarrow> \<forall>x\<in>set ps. CHR ''/'' \<notin> set x \<Longrightarrow> split_slash (join_slash ps) = ps"
proof (induction ps rule: join_slash.induct)
  case 1
  then show ?case by simp
next
  case (2 x)
  then show ?case by (simp add: split_slash_plain)
next
  case (3 x y ys)
  then show ?case by (simp add: split_slash_append)
qed

lemma parse_path_parts: "parse_path s = (r, ps) \<Longrightarrow> \<forall>x\<in>set ps. valid_part x"
  by (auto simp: parse_path_def valid_part_def split: prod.splits dest: split_slash_no_sep)

lemma parse_path_root: "parse_path s = (r, ps) \<Longrightarrow> r = [] \<or> r = ''/'' \<or> r = ''//''"
  by (auto simp: parse_path_def splitroot_def Let_def split: prod.splits if_splits)

lemma join_slash_snoc: "ps \<noteq> [] \<Longrightarrow> join_slash (ps @ [x]) = join_slash ps @ ''/'' @ x"
  by (induction ps rule: join_slash.induct) auto

lemma valid_part_hd: "valid_part x \<Longrightarrow> x \<noteq> [] \<and> hd x \<noteq> CHR ''/''"
  by (cases x) (auto simp: valid_part_def)

lemma join_slash_hd:
  "ps \<noteq> [] \<Longrightarrow> \<forall>x\<in>set ps. valid_part x \<Longrightarrow>
     join_slash ps \<noteq> [] \<and> hd (join_slash ps) \<noteq> CHR ''/''"
proof (induction ps rule: join_slash.induct)
  case 1
  then show ?case by simp
next
  case (2 x)
  then show ?case using valid_part_hd[of x] by simp
next
  case (3 x y ys)
  then show ?case using valid_part_hd[of x] by (simp add: hd_append)
qed

lemma pathlib_div_relative:
  "parse_path b = ([], pb) \<Longrightarrow> parse_path a = (r, pa) \<Longrightarrow>
     pathlib_div a b = path_str (r, pa @ pb)"
  by (simp add: pathlib_div_def)

lemma splitroot_str:
  assumes "r = [] \<or> r = ''/'' \<or> r = ''//''" and "t \<noteq> []" and "hd t \<noteq> CHR ''/''"
  shows "splitroot (r @ t) = (r, t)"
proof -
  obtain c cs where t: "t = c # cs" "c \<noteq> CHR ''/''" using assms(2,3) by (cases t) auto
  from assms(1) show ?thesis
    by (elim disjE) (simp_all add: splitroot_def t)
qed

lemma parse_path_str:
  assumes r: "r = [] \<or> r = ''/'' \<or> r = ''//''" and ne: "ps \<noteq> []"
    and v: "\<forall>x\<in>set ps. valid_part x"
  shows "parse_path (path_str (r, ps)) = (r, ps)"
proof -
  from join_slash_hd[OF ne v] have j: "join_slash ps \<noteq> []" "hd (join_slash ps) \<noteq> CHR ''/''"
    by simp_all
  have s: "path_str (r, ps) = r @ join_slash ps" using j by (simp add: path_str_def)
  have nosep: "\<forall>x\<in>set ps. CHR ''/'' \<notin> set x" using v by (simp add: valid_part_def)
  have keep: "filter (\<lambda>x. x \<noteq> [] \<and> x \<noteq> ''.'') ps = ps"
    using v by (simp add: valid_part_def filter_id_conv)
  show ?thesis
    unfolding s parse_path_def splitroot_str[OF r j] using split_join[OF ne nosep] keep by simp
qed

lemma pathlib_div_segment:
  assumes n: "valid_part n"
  shows "pathlib_div (pathlib_div a ''outputs'') n = pathlib_div a ''outputs'' @ ''/'' @ n"
proof -
  obtain r ps where a: "parse_path a = (r, ps)" by (cases "parse_path a")
  have po: "parse_path ''outputs'' = ([], [''outputs''])"
    by (simp add: parse_path_def splitroot_def)
  have d: "pathlib_div a ''outputs'' = path_str (r, ps @ [''outputs''])"
    by (rule pathlib_div_relative[OF po a])
  have vo: "valid_part ''outputs''" by (simp add: valid_part_def)
  have v: "\<forall>x\<in>set (ps @ [''outputs'']). valid_part x"
    using parse_path_parts[OF a] vo by simp
  have pd: "parse_path (pathlib_div a ''outputs'') = (r, ps @ [''outputs''])"
    unfolding d by (rule parse_path_str[OF parse_path_root[OF a] _ v]) simp
  obtain c cs where nc: "n = c # cs" "c \<noteq> CHR ''/''" using n by (cases n) (auto simp: valid_part_def)
  have pn: "parse_path n = ([], [n])"
    using n nc by (simp add: parse_path_def splitroot_def valid_part_def split_slash_plain)
  have j: "join_slash (ps @ [''outputs'']) \<noteq> []" using join_slash_hd[OF _ v] by simp
  have "pathlib_div (pathlib_div a ''outputs'') n = path_str (r, (ps @ [''outputs'']) @ [n])"
    by (rule pathlib_div_relative[OF pn pd])
  also have "\<dots> = r @ join_slash (ps @ [''outputs'']) @ ''/'' @ n"
    using join_slash_snoc[of "ps @ [''outputs'']" n] by (simp add: path_str_def)
  also have "\<dots> = path_str (r, ps @ [''outputs'']) @ ''/'' @ n"
    using j by (simp add: path_str_def)
  finally show ?thesis unfolding d .
qed

subsection \<open>The pipeline\<close>

lemma ffmpeg_run_frame:
  "ffmpeg_run e w s flag = (r, w') \<Longrightarrow> db w' = db w \<and> dirs w' = dirs w \<and> kb_calls w' = kb_calls w"
  by (auto simp: ffmpeg_run_def split: option.splits)

lemma write_file_frame:
  "write_file e w p data = (r, w') \<Longrightarrow>
     db w' = db w \<and> dirs w' = dirs w \<and> kb_calls w' = kb_calls w \<and> ffmpeg_runs w' = ffmpeg_runs w"
  by (auto simp: write_file_def split: if_splits)

lemma ken_burns_try_frame:
  "ken_burns_try e w ip outp d zs ze px py = (r, w') \<Longrightarrow>
     db w' = db w \<and> dirs w' = dirs w \<and> kb_calls w' = kb_calls w"
  by (auto simp: ken_burns_try_def Let_def dest: ffmpeg_run_frame split: sum.splits prod.splits)

lemma create_ken_burns_effect_frame:
  "create_ken_burns_effect e w ip outp d zs ze px py = (ok, w') \<Longrightarrow>
     db w' = db w \<and> dirs w' = dirs w \<and>
     kb_calls w' = kb_calls w @
       [\<lparr>kb_image = ip, kb_output = outp, kb_duration = d, kb_zoom_start = zs,
         kb_zoom_end = ze, kb_pan_x = px, kb_pan_y = py, kb_result = ok\<rparr>]"
  by (auto simp: create_ken_burns_effect_def Let_def dest: ken_burns_try_frame split: prod.splits)

lemma render_image_frame:
  "render_image e p td i b w = (r, w') \<Longrightarrow> db w' = db w \<and> dirs w' = dirs w"
  by (auto simp: render_image_def Let_def dest!: write_file_frame create_ken_burns_effect_frame
      split: option.splits prod.splits sum.splits bool.splits)

lemma render_loop_frame:
  "render_loop e p td xs clips w = (r, w') \<Longrightarrow> db w' = db w \<and> dirs w' = dirs w"
proof (induction xs arbitrary: clips w)
  case Nil
  then show ?case by simp
next
  case (Cons x xs)
  obtain i b where x: "x = (i, b)" by (cases x)
  obtain r1 w1 where ri: "render_image e p td i b w = (r1, w1)" by (cases "render_image e p td i b w")
  from render_image_frame[OF ri] have f1: "db w1 = db w" "dirs w1 = dirs w" by simp_all
  show ?case
  proof (cases r1)
    case (Inl err)
    with Cons.prems x ri f1 show ?thesis by simp
  next
    case (Inr v)
    with Cons.prems x ri Cons.IH f1 show ?thesis
      by (cases v) (auto split: if_splits)
  qed
qed

lemma py_truediv_Inr:
  "py_truediv a b = Inr x \<Longrightarrow> x = Finite (round_double (of_int a / of_int b)) \<and> b \<noteq> 0"
  by (auto simp: py_truediv_def fl_def split: if_splits pyfloat.splits)

lemma py_truediv_Inl:
  "py_truediv a b = Inl err \<Longrightarrow> err \<noteq> PyException m"
  by (auto simp: py_truediv_def split: if_splits pyfloat.splits)

lemma write_file_Inl:
  "write_file e w p data = (Inl err, w') \<Longrightarrow> err \<noteq> PyException m \<and> w' = w"
  by (auto simp: write_file_def split: if_splits)

lemma render_image_result:
  assumes "render_image e p td i b w = (r, w')"
  shows "(\<exists>err. r = Inl err \<and> (\<forall>m. err \<noteq> PyException m) \<and> kb_calls w' = kb_calls w) \<or>
         (\<exists>c. r = Inr (if kb_result c then Some (kb_output c) else None) \<and>
              kb_calls w' = kb_calls w @ [c] \<and>
              kb_image c = path_join td (''image_'' @ show_nat i @ ''.jpg'') \<and>
              kb_output c = path_join td (''clip_'' @ show_nat i @ ''.mp4'') \<and>
              kb_duration c = Finite (round_double (of_int (duration p) / of_nat (length (images p)))))"
proof (cases "b64decode e b")
  case None
  with assms show ?thesis by (auto simp add: render_image_def)
next
  case (Some data)
  let ?ip = "path_join td (''image_'' @ show_nat i @ ''.jpg'')"
  let ?cp = "path_join td (''clip_'' @ show_nat i @ ''.mp4'')"
  obtain r1 w1 where wf: "write_file e w ?ip data = (r1, w1)"
    by (cases "write_file e w ?ip data")
  show ?thesis
  proof (cases r1)
    case (Inl err)
    with assms Some wf write_file_Inl[of e w ?ip data err w1] show ?thesis
      by (auto simp add: render_image_def)
  next
    case r1: (Inr u)
    from write_file_frame[OF wf] have k1: "kb_calls w1 = kb_calls w" by simp
    show ?thesis
    proof (cases "py_truediv (duration p) (int (length (images p)))")
      case (Inl err)
      with assms Some wf r1 k1 py_truediv_Inl[OF Inl] show ?thesis
        by (auto simp add: render_image_def)
    next
      case (Inr cd)
      from py_truediv_Inr[OF Inr]
      have cd: "cd = Finite (round_double (of_int (duration p) / of_nat (length (images p))))" by simp
      let ?zs = "fadd (Finite 1) (fmul (float_of_int (int i)) (Finite (1 / 10)))"
      let ?ze = "fadd (Finite (6 / 5)) (fmul (float_of_int (int i)) (Finite (1 / 10)))"
      let ?px = "PInt ((int i mod 2) * 100)"
      let ?py = "PInt ((int i mod 3) * 50)"
      obtain ok w2 where kb: "create_ken_burns_effect e w1 ?ip ?cp cd ?zs ?ze ?px ?py = (ok, w2)"
        by (cases "create_ken_burns_effect e w1 ?ip ?cp cd ?zs ?ze ?px ?py")
      from assms Some wf r1 Inr kb have res: "r = Inr (if ok then Some ?cp else None)" "w' = w2"
        by (cases ok; simp add: render_image_def)+
      let ?c = "\<lparr>kb_image = ?ip, kb_output = ?cp, kb_duration = cd, kb_zoom_start = ?zs,
         kb_zoom_end = ?ze, kb_pan_x = ?px, kb_pan_y = ?py, kb_result = ok\<rparr>"
      from create_ken_burns_effect_frame[OF kb] k1 have "kb_calls w2 = kb_calls w @ [?c]" by simp
      with res cd show ?thesis
        by (intro disjI2 exI[of _ ?c]) simp
    qed
  qed
qed

lemma render_loop_result:
  "render_loop e p td xs clips w = (r, w') \<Longrightarrow>
     \<exists>calls. kb_calls w' = kb_calls w @ calls \<and>
       (\<forall>c\<in>set calls. kb_duration c = Finite (round_double (of_int (duration p) / of_nat (length (images p))))) \<and>
       (case r of
          Inl err \<Rightarrow> (\<forall>m. err \<noteq> PyException m) \<and> length calls \<le> length xs
        | Inr out \<Rightarrow>
            map kb_image calls = map (\<lambda>(i, b). path_join td (''image_'' @ show_nat i @ ''.jpg'')) xs \<and>
            map kb_output calls = map (\<lambda>(i, b). path_join td (''clip_'' @ show_nat i @ ''.mp4'')) xs \<and>
            out = clips @ map kb_output (filter kb_result calls))"
proof (induction xs arbitrary: clips w)
  case Nil
  then show ?case by auto
next
  case (Cons x xs)
  obtain i b where x: "x = (i, b)" by (cases x)
  obtain r1 w1 where ri: "render_image e p td i b w = (r1, w1)"
    by (cases "render_image e p td i b w")
  from render_image_result[OF ri] show ?case
  proof (elim disjE exE conjE)
    fix err assume a: "r1 = Inl err" "\<forall>m. err \<noteq> PyException m" "kb_calls w1 = kb_calls w"
    with Cons.prems x ri have "r = Inl err" "w' = w1" by simp_all
    with a show ?thesis by (intro exI[of _ "[]"]) simp
  next
    fix c assume a: "r1 = Inr (if kb_result c then Some (kb_output c) else None)"
      "kb_calls w1 = kb_calls w @ [c]"
      "kb_image c = path_join td (''image_'' @ show_nat i @ ''.jpg'')"
      "kb_output c = path_join td (''clip_'' @ show_nat i @ ''.mp4'')"
      "kb_duration c = Finite (round_double (of_int (duration p) / of_nat (length (images p))))"
    let ?clips' = "if kb_result c then clips @ [kb_output c] else clips"
    from Cons.prems x ri a(1)
    have "render_loop e p td xs ?clips' w1 = (r, w')" by (simp split: if_splits)
    from Cons.IH[OF this] obtain calls where
      calls: "kb_calls w' = kb_calls w1 @ calls"
        "\<forall>c\<in>set calls. kb_duration c = Finite (round_double (of_int (duration p) / of_nat (length (images p))))"
        "case r of
          Inl err \<Rightarrow> (\<forall>m. err \<noteq> PyException m) \<and> length calls \<le> length xs
        | Inr out \<Rightarrow>
            map kb_image calls = map (\<lambda>(i, b). path_join td (''image_'' @ show_nat i @ ''.jpg'')) xs \<and>
            map kb_output calls = map (\<lambda>(i, b). path_join td (''clip_'' @ show_nat i @ ''.mp4'')) xs \<and>
            out = ?clips' @ map kb_output (filter kb_result calls)" by blast
    show ?thesis
    proof (intro exI[of _ "c # calls"] conjI)
      show "kb_calls w' = kb_calls w @ c # calls" using calls(1) a(2) by simp
      show "\<forall>c\<in>set (c # calls). kb_duration c = Finite (round_double (of_int (duration p) / of_nat (length (images p))))"
        using calls(2) a(5) by simp
      show "case r of
          Inl err \<Rightarrow> (\<forall>m. err \<noteq> PyException m) \<and> length (c # calls) \<le> length (x # xs)
        | Inr out \<Rightarrow>
            map kb_image (c # calls) = map (\<lambda>(i, b). path_join td (''image_'' @ show_nat i @ ''.jpg'')) (x # xs) \<and>
            map kb_output (c # calls) = map (\<lambda>(i, b). path_join td (''clip_'' @ show_nat i @ ''.mp4'')) (x # xs) \<and>
            out = clips @ map kb_output (filter kb_result (c # calls))"
        using calls(3) a(3,4) x by (cases r) auto
    qed
  qed
qed

lemma add_logo_frame:
  "add_logo e w p td s = (r, w') \<Longrightarrow>
     db w' = db w \<and> dirs w' = dirs w \<and> kb_calls w' = kb_calls w \<and>
     ffmpeg_runs w' = ffmpeg_runs w \<and> (\<forall>m. r \<noteq> Inl (PyException m))"
  by (auto simp: add_logo_def write_file_def Let_def split: if_splits option.splits)

lemma add_music_frame:
  "add_music e w p td s outp = (r, w') \<Longrightarrow>
     db w' = db w \<and> dirs w' = dirs w \<and> kb_calls w' = kb_calls w \<and>
     ffmpeg_runs w' = ffmpeg_runs w \<and> (\<forall>m. r \<noteq> Inl (PyException m)) \<and>
     (\<forall>s'. r = Inr s' \<longrightarrow> out_path s' = Some outp)"
  by (auto simp: add_music_def write_file_def Let_def split: if_splits option.splits)

lemma concat_clips_Inl: "concat_clips cs = Inl err \<Longrightarrow> err = IndexError"
  by (auto simp: concat_clips_def Let_def split: if_splits)

lemma ffmpeg_run_result:
  "ffmpeg_run e w s flag = (r, w') \<Longrightarrow>
     db w' = db w \<and> dirs w' = dirs w \<and> kb_calls w' = kb_calls w \<and>
     (\<forall>m. r \<noteq> Inl (PyException m)) \<and>
     (\<forall>u. r = Inr u \<longrightarrow>
        (\<exists>c. ffmpeg_exec e (files w) s = Some c \<and>
             files w' = (case out_path s of None \<Rightarrow> files w | Some q \<Rightarrow> (files w)(q \<mapsto> c)) \<and>
             ffmpeg_runs w' = ffmpeg_runs w @ [(s, flag, True)]))"
  by (auto simp: ffmpeg_run_def split: option.splits)

lemma rmtree_result:
  "rmtree e w d = (r, w') \<Longrightarrow>
     db w' = db w \<and> kb_calls w' = kb_calls w \<and> ffmpeg_runs w' = ffmpeg_runs w \<and>
     (\<forall>m. r \<noteq> Inl (PyException m)) \<and>
     (\<forall>err. r = Inl err \<longrightarrow> w' = w) \<and>
     (\<forall>u. r = Inr u \<longrightarrow> dirs w' = dirs w - {d} \<and>
        files w' = (\<lambda>q. if prefix (d @ ''/'') q then None else files w q))"
  by (auto simp: rmtree_def split: if_splits)

lemma concat_clips_nonempty: "cs \<noteq> [] \<Longrightarrow> \<exists>s. concat_clips cs = Inr s"
  by (auto simp: concat_clips_def Let_def)

lemma video_try_cases:
  assumes vt: "video_try e w p outp = (r, w')"
  obtains
    (no_tmpdir) "tmpdir e = None" "r = Inl OSError" "w' = w"
  | (loop_failed) td err where "tmpdir e = Some td"
      "render_loop e p td (enumerate 0 (images p)) [] (w\<lparr>dirs := insert td (dirs w)\<rparr>) = (Inl err, w')"
      "r = Inl err"
  | (no_clips) td where "tmpdir e = Some td"
      "render_loop e p td (enumerate 0 (images p)) [] (w\<lparr>dirs := insert td (dirs w)\<rparr>) = (Inr [], w')"
      "r = Inl (PyException ''No video clips created'')"
  | (logo_failed) td clips w1 s err where "tmpdir e = Some td"
      "render_loop e p td (enumerate 0 (images p)) [] (w\<lparr>dirs := insert td (dirs w)\<rparr>) = (Inr clips, w1)"
      "clips \<noteq> []" "concat_clips clips = Inr s"
      "add_logo e w1 p td s = (Inl err, w')" "r = Inl err"
  | (music_failed) td clips w1 s s2 w2 err where "tmpdir e = Some td"
      "render_loop e p td (enumerate 0 (images p)) [] (w\<lparr>dirs := insert td (dirs w)\<rparr>) = (Inr clips, w1)"
      "clips \<noteq> []" "concat_clips clips = Inr s"
      "add_logo e w1 p td s = (Inr s2, w2)"
      "add_music e w2 p td s2 outp = (Inl err, w')" "r = Inl err"
  | (encode_failed) td clips w1 s s2 w2 s3 w3 err where "tmpdir e = Some td"
      "render_loop e p td (enumerate 0 (images p)) [] (w\<lparr>dirs := insert td (dirs w)\<rparr>) = (Inr clips, w1)"
      "clips \<noteq> []" "concat_clips clips = Inr s"
      "add_logo e w1 p td s = (Inr s2, w2)"
      "add_music e w2 p td s2 outp = (Inr s3, w3)"
      "ffmpeg_run e w3 s3 True = (Inl err, w')" "r = Inl err"
  | (encoded) td clips w1 s s2 w2 s3 w3 u w4 where "tmpdir e = Some td"
      "render_loop e p td (enumerate 0 (images p)) [] (w\<lparr>dirs := insert td (dirs w)\<rparr>) = (Inr clips, w1)"
      "clips \<noteq> []" "concat_clips clips = Inr s"
      "add_logo e w1 p td s = (Inr s2, w2)"
      "add_music e w2 p td s2 outp = (Inr s3, w3)"
      "ffmpeg_run e w3 s3 True = (Inr u, w4)"
      "rmtree e w4 td = (r, w')"
proof (cases "tmpdir e")
  case None
  with vt have "r = Inl OSError" "w' = w" by (simp_all add: video_try_def mkdtemp_def)
  with None show ?thesis by (rule no_tmpdir)
next
  case (Some td)
  let ?w0 = "w\<lparr>dirs := insert td (dirs w)\<rparr>"
  obtain rl w1 where rl: "render_loop e p td (enumerate 0 (images p)) [] ?w0 = (rl, w1)"
    by (cases "render_loop e p td (enumerate 0 (images p)) [] ?w0")
  show ?thesis
  proof (cases rl)
    case (Inl err)
    with vt Some rl have "r = Inl err" "w' = w1" by (simp_all add: video_try_def mkdtemp_def)
    with Some rl Inl show ?thesis by (intro loop_failed[of td err]) simp_all
  next
    case (Inr clips)
    note rl' = rl[unfolded Inr]
    show ?thesis
    proof (cases "clips = []")
      case True
      with vt Some rl' have "r = Inl (PyException ''No video clips created'')" "w' = w1"
        by (simp_all add: video_try_def mkdtemp_def)
      with Some rl' True show ?thesis by (intro no_clips[of td]) simp_all
    next
      case False
      then obtain s where s: "concat_clips clips = Inr s" using concat_clips_nonempty by blast
      have eq1: "video_try e w p outp =
        (case add_logo e w1 p td s of
           (Inl err, w2) \<Rightarrow> (Inl err, w2)
         | (Inr s2, w2) \<Rightarrow>
             (case add_music e w2 p td s2 outp of
                (Inl err, w3) \<Rightarrow> (Inl err, w3)
              | (Inr s3, w3) \<Rightarrow>
                  (case ffmpeg_run e w3 s3 True of
                     (Inl err, w4) \<Rightarrow> (Inl err, w4)
                   | (Inr _, w4) \<Rightarrow> rmtree e w4 td)))"
        using Some rl' False s by (simp add: video_try_def mkdtemp_def)
      obtain r2 w2 where al: "add_logo e w1 p td s = (r2, w2)" by (cases "add_logo e w1 p td s")
      show ?thesis
      proof (cases r2)
        case (Inl err)
        with eq1 al vt have "r = Inl err" "w' = w2" by simp_all
        with Some rl' False s al Inl show ?thesis
          by (intro logo_failed[of td clips w1 s err]) simp_all
      next
        case (Inr s2)
        note al' = al[unfolded Inr]
        have eq2: "video_try e w p outp =
             (case add_music e w2 p td s2 outp of
                (Inl err, w3) \<Rightarrow> (Inl err, w3)
              | (Inr s3, w3) \<Rightarrow>
                  (case ffmpeg_run e w3 s3 True of
                     (Inl err, w4) \<Rightarrow> (Inl err, w4)
                   | (Inr _, w4) \<Rightarrow> rmtree e w4 td))"
          using eq1 al' by simp
        obtain r3 w3 where am: "add_music e w2 p td s2 outp = (r3, w3)"
          by (cases "add_music e w2 p td s2 outp")
        show ?thesis
        proof (cases r3)
          case (Inl err)
          with eq2 am vt have "r = Inl err" "w' = w3" by simp_all
          with Some rl' False s al' am Inl show ?thesis
            by (intro music_failed[of td clips w1 s s2 w2 err]) simp_all
        next
          case (Inr s3)
          note am' = am[unfolded Inr]
          have eq3: "video_try e w p outp =
                  (case ffmpeg_run e w3 s3 True of
                     (Inl err, w4) \<Rightarrow> (Inl err, w4)
                   | (Inr _, w4) \<Rightarrow> rmtree e w4 td)"
            using eq2 am' by simp
          obtain r4 w4 where fr: "ffmpeg_run e w3 s3 True = (r4, w4)"
            by (cases "ffmpeg_run e w3 s3 True")
          show ?thesis
          proof (cases r4)
            case (Inl err)
            with eq3 fr vt have "r = Inl err" "w' = w4" by simp_all
            with Some rl' False s al' am' fr Inl show ?thesis
              by (intro encode_failed[of td clips w1 s s2 w2 s3 w3 err]) simp_all
          next
            case (Inr u)
            with eq3 fr vt have "rmtree e w4 td = (r, w')" by simp
            with Some rl' False s al' am' fr Inr show ?thesis
              by (intro encoded[of td clips w1 s s2 w2 s3 w3 u w4]) simp_all
          qed
        qed
      qed
    qed
  qed
qed

lemma video_try_db: "video_try e w p outp = (r, w') \<Longrightarrow> db w' = db w"
proof (induction rule: video_try_cases[consumes 1, case_names no_tmpdir loop_failed no_clips logo_failed music_failed encode_failed encoded])
  case no_tmpdir
  then show ?case by simp
next
  case (loop_failed td err)
  then show ?case using render_loop_frame by fastforce
next
  case (no_clips td)
  then show ?case using render_loop_frame by fastforce
next
  case (logo_failed td clips w1 s err)
  then show ?case using render_loop_frame[of e p td _ "[]" _ _ w1] add_logo_frame[of e w1 p td s _ w']
    by simp
next
  case (music_failed td clips w1 s s2 w2 err)
  then show ?case using render_loop_frame[of e p td _ "[]" _ _ w1] add_logo_frame[of e w1 p td s _ w2]
      add_music_frame[of e w2 p td s2 outp _ w']
    by simp
next
  case (encode_failed td clips w1 s s2 w2 s3 w3 err)
  then show ?case using render_loop_frame[of e p td _ "[]" _ _ w1] add_logo_frame[of e w1 p td s _ w2]
      add_music_frame[of e w2 p td s2 outp _ w3] ffmpeg_run_frame[of e w3 s3 True _ w']
    by simp
next
  case (encoded td clips w1 s s2 w2 s3 w3 u w4)
  then show ?case using render_loop_frame[of e p td _ "[]" _ _ w1] add_logo_frame[of e w1 p td s _ w2]
      add_music_frame[of e w2 p td s2 outp _ w3] ffmpeg_run_frame[of e w3 s3 True _ w4]
      rmtree_result[of e w4 td r w']
    by simp
qed

lemma create_video_from_images_db:
  "create_video_from_images e w p outp = (ok, w') \<Longrightarrow> db w' = db w"
  by (auto simp: create_video_from_images_def dest: video_try_db split: prod.splits sum.splits)

lemma map_enumerate_index:
  "map (\<lambda>(i, b). f i) (enumerate n xs) = map f [n..<n + length xs]"
  by (induction xs arbitrary: n) (simp_all add: upt_rec)

lemma filter_length_lt:
  "(length (filter P xs) < length xs) = (\<exists>x\<in>set xs. \<not> P x)"
  by (metis filter_False filter_True length_filter_le less_irrefl_nat linorder_le_less_linear
      nat_less_le length_filter_less)

lemma sum_list_const:
  "(\<forall>x\<in>set xs. f x = c) \<Longrightarrow> sum_list (map f xs) = of_nat (length xs) * (c::rat)"
  by (induction xs) (simp_all add: algebra_simps)

lemma video_try_calls:
  assumes vt: "video_try e w p outp = (r, w')"
  shows "\<exists>calls. kb_calls w' = kb_calls w @ calls \<and> length calls \<le> length (images p) \<and>
           (\<forall>c\<in>set calls. kb_duration c = Finite (round_double (of_int (duration p) / of_nat (length (images p))))) \<and>
           (isl r \<or> length calls = length (images p))"
proof -
  have loop: "\<exists>calls. kb_calls w1 = kb_calls w @ calls \<and> length calls \<le> length (images p) \<and>
           (\<forall>c\<in>set calls. kb_duration c = Finite (round_double (of_int (duration p) / of_nat (length (images p))))) \<and>
           (isl rl \<or> length calls = length (images p))"
    if "render_loop e p td (enumerate 0 (images p)) [] (w\<lparr>dirs := insert td (dirs w)\<rparr>) = (rl, w1)"
    for td rl w1
  proof -
    from render_loop_result[OF that] obtain calls where
      c: "kb_calls w1 = kb_calls w @ calls"
        "\<forall>c\<in>set calls. kb_duration c = Finite (round_double (of_int (duration p) / of_nat (length (images p))))"
        "case rl of
          Inl err \<Rightarrow> (\<forall>m. err \<noteq> PyException m) \<and> length calls \<le> length (enumerate 0 (images p))
        | Inr out \<Rightarrow>
            map kb_image calls = map (\<lambda>(i, b). path_join td (''image_'' @ show_nat i @ ''.jpg'')) (enumerate 0 (images p)) \<and>
            map kb_output calls = map (\<lambda>(i, b). path_join td (''clip_'' @ show_nat i @ ''.mp4'')) (enumerate 0 (images p)) \<and>
            out = [] @ map kb_output (filter kb_result calls)"
      by auto
    have "length calls \<le> length (images p) \<and> (isl rl \<or> length calls = length (images p))"
    proof (cases rl)
      case (Inl err)
      with c(3) show ?thesis by simp
    next
      case (Inr out)
      with c(3) have "map kb_image calls =
          map (\<lambda>(i, b). path_join td (''image_'' @ show_nat i @ ''.jpg'')) (enumerate 0 (images p))"
        by simp
      then have "length calls = length (images p)" by (metis length_map length_enumerate)
      then show ?thesis by simp
    qed
    with c(1,2) show ?thesis by blast
  qed
  from vt show ?thesis
  proof (cases rule: video_try_cases)
    case no_tmpdir
    then show ?thesis by auto
  next
    case (loop_failed td err)
    from loop[OF loop_failed(2)] loop_failed(3) show ?thesis by auto
  next
    case (no_clips td)
    from loop[OF no_clips(2)] no_clips(3) show ?thesis by auto
  next
    case (logo_failed td clips w1 s err)
    from loop[OF logo_failed(2)] logo_failed(6) add_logo_frame[OF logo_failed(5)]
    show ?thesis by auto
  next
    case (music_failed td clips w1 s s2 w2 err)
    from loop[OF music_failed(2)] music_failed(7) add_logo_frame[OF music_failed(5)]
      add_music_frame[OF music_failed(6)]
    show ?thesis by auto
  next
    case (encode_failed td clips w1 s s2 w2 s3 w3 err)
    from loop[OF encode_failed(2)] encode_failed(8) add_logo_frame[OF encode_failed(5)]
      add_music_frame[OF encode_failed(6)] ffmpeg_run_frame[OF encode_failed(7)]
    show ?thesis by auto
  next
    case (encoded td clips w1 s s2 w2 s3 w3 u w4)
    from loop[OF encoded(2)] add_logo_frame[OF encoded(5)]
      add_music_frame[OF encoded(6)] ffmpeg_run_frame[OF encoded(7)] rmtree_result[OF encoded(8)]
    show ?thesis by auto
  qed
qed

lemma foldl_xfade_cong:
  "\<forall>i\<in>set is. xs ! i = ys ! i \<Longrightarrow>
     foldl (\<lambda>s i. xfade s (xs ! i)) a is = foldl (\<lambda>s i. xfade s (ys ! i)) a is"
  by (induction "is" arbitrary: a) simp_all

lemma video_try_success:
  assumes vt: "video_try e w p outp = (Inr u, w')"
  shows "\<exists>td s fs c runs. tmpdir e = Some td \<and>
           ffmpeg_runs w' = runs @ [(s, True, True)] \<and> out_path s = Some outp \<and>
           ffmpeg_exec e fs s = Some c \<and>
           files w' = (\<lambda>q. if prefix (td @ ''/'') q then None else (fs(outp \<mapsto> c)) q) \<and>
           td \<notin> dirs w' \<and> db w' = db w"
  using vt
proof (cases rule: video_try_cases)
  case (encoded td clips w1 s s2 w2 s3 w3 u' w4)
  from add_music_frame[OF encoded(6)] have op: "out_path s3 = Some outp" by simp
  from ffmpeg_run_result[OF encoded(7)] op obtain c where
    c: "ffmpeg_exec e (files w3) s3 = Some c" "files w4 = (files w3)(outp \<mapsto> c)"
       "ffmpeg_runs w4 = ffmpeg_runs w3 @ [(s3, True, True)]"
    by auto
  from rmtree_result[OF encoded(8)]
  have r: "dirs w' = dirs w4 - {td}"
    "files w' = (\<lambda>q. if prefix (td @ ''/'') q then None else files w4 q)"
    "ffmpeg_runs w' = ffmpeg_runs w4"
    by simp_all
  from video_try_db[OF vt] have d: "db w' = db w" .
  have "tmpdir e = Some td \<and>
           ffmpeg_runs w' = ffmpeg_runs w3 @ [(s3, True, True)] \<and> out_path s3 = Some outp \<and>
           ffmpeg_exec e (files w3) s3 = Some c \<and>
           files w' = (\<lambda>q. if prefix (td @ ''/'') q then None else ((files w3)(outp \<mapsto> c)) q) \<and>
           td \<notin> dirs w' \<and> db w' = db w"
    using encoded(1) op c r d by (simp cong: if_cong)
  then show ?thesis by blast
qed simp_all

lemma update_one_frame:
  "files (update_one w k f) = files w \<and> dirs (update_one w k f) = dirs w \<and>
   kb_calls (update_one w k f) = kb_calls w \<and> ffmpeg_runs (update_one w k f) = ffmpeg_runs w"
  by (simp add: update_one_def split: option.splits)

lemma generate_video_success:
  assumes g: "generate_video e w project_id = (Inr r, w')"
  shows "\<exists>p td s fs c runs. db w project_id = Some p \<and> images p \<noteq> [] \<and>
           r = [(''message'', ''Video generated successfully''),
                (''video_url'', ''/api/videos/'' @ output_filename project_id (resolution p))] \<and>
           db w' = (db w)(project_id \<mapsto>
                      p\<lparr>video_url := Some (''/api/videos/'' @ output_filename project_id (resolution p)),
                        status := ''completed''\<rparr>) \<and>
           tmpdir e = Some td \<and>
           ffmpeg_runs w' = runs @ [(s, True, True)] \<and>
           out_path s = Some (pathlib_div (OUTPUT_DIR e) (output_filename project_id (resolution p))) \<and>
           ffmpeg_exec e fs s = Some c \<and>
           files w' = (\<lambda>q. if prefix (td @ ''/'') q then None
                           else (fs(pathlib_div (OUTPUT_DIR e) (output_filename project_id (resolution p)) \<mapsto> c)) q)"
proof -
  from g obtain p where p: "db w project_id = Some p"
    by (cases "db w project_id") (simp_all add: generate_video_def)
  from g p have ne: "images p \<noteq> []" by (auto simp: generate_video_def split: if_splits)
  let ?w1 = "update_one w project_id (\<lambda>p. p\<lparr>status := ''processing''\<rparr>)"
  let ?fn = "output_filename project_id (resolution p)"
  let ?out = "pathlib_div (OUTPUT_DIR e) ?fn"
  obtain rv wv where vt: "video_try e ?w1 p ?out = (rv, wv)" by (cases "video_try e ?w1 p ?out")
  have rv: "\<exists>u. rv = Inr u"
  proof (cases rv)
    case (Inl err)
    with g p ne vt show ?thesis
      by (simp add: generate_video_def create_video_from_images_def Let_def)
  qed simp
  then obtain u where u: "rv = Inr u" by blast
  from g p ne vt u have res:
    "r = [(''message'', ''Video generated successfully''), (''video_url'', ''/api/videos/'' @ ?fn)]"
    "w' = update_one wv project_id
            (\<lambda>p. p\<lparr>video_url := Some (''/api/videos/'' @ ?fn), status := ''completed''\<rparr>)"
    by (simp_all add: generate_video_def create_video_from_images_def Let_def)
  from video_try_success[OF vt[unfolded u]] obtain td s fs c runs where
    v: "tmpdir e = Some td" "ffmpeg_runs wv = runs @ [(s, True, True)]" "out_path s = Some ?out"
       "ffmpeg_exec e fs s = Some c"
       "files wv = (\<lambda>q. if prefix (td @ ''/'') q then None else (fs(?out \<mapsto> c)) q)"
       "db wv = db ?w1"
    by blast
  have dbw: "db w' = (db w)(project_id \<mapsto>
                      p\<lparr>video_url := Some (''/api/videos/'' @ ?fn), status := ''completed''\<rparr>)"
    using res(2) v(6) p by (simp add: update_one_def)
  have "db w project_id = Some p \<and> images p \<noteq> [] \<and>
           r = [(''message'', ''Video generated successfully''),
                (''video_url'', ''/api/videos/'' @ ?fn)] \<and>
           db w' = (db w)(project_id \<mapsto>
                      p\<lparr>video_url := Some (''/api/videos/'' @ ?fn), status := ''completed''\<rparr>) \<and>
           tmpdir e = Some td \<and>
           ffmpeg_runs w' = runs @ [(s, True, True)] \<and>
           out_path s = Some ?out \<and>
           ffmpeg_exec e fs s = Some c \<and>
           files w' = (\<lambda>q. if prefix (td @ ''/'') q then None else (fs(?out \<mapsto> c)) q)"
    using p ne res(1) dbw v(1-5) res(2) update_one_frame[of wv] by simp
  then show ?thesis by blast
qed

lemma logo_opacity_other_fields:
  "duration (p\<lparr>logo_opacity := a\<rparr>) = duration p"
  "images (p\<lparr>logo_opacity := a\<rparr>) = images p"
  "logo_file (p\<lparr>logo_opacity := a\<rparr>) = logo_file p"
  "music_file (p\<lparr>logo_opacity := a\<rparr>) = music_file p"
  by simp_all

lemma render_image_logo_opacity:
  "render_image e (p\<lparr>logo_opacity := a\<rparr>) td i b w = render_image e p td i b w"
  unfolding render_image_def logo_opacity_other_fields ..

lemma render_loop_logo_opacity:
  "render_loop e (p\<lparr>logo_opacity := a\<rparr>) td xs clips w = render_loop e p td xs clips w"
  by (induction xs arbitrary: clips w)
     (auto simp: render_image_logo_opacity split: prod.splits sum.splits option.splits)

text \<open>
  Whenever \<open>create_video_from_images\<close> returns \<open>False\<close> after \<open>mkdtemp\<close> succeeded, the
  temporary directory still exists: no failure path removes it.
\<close>

lemma failed_job_keeps_temp_dir:
  assumes td: "tmpdir e = Some td"
    and cv: "create_video_from_images e w p outp = (False, w')"
  shows "td \<in> dirs w'"
proof -
  obtain r wv where vt: "video_try e w p outp = (r, wv)" by (cases "video_try e w p outp")
  from cv vt obtain err where r: "r = Inl err" and w': "w' = wv"
    by (cases r) (simp_all add: create_video_from_images_def)
  have start: "td \<in> dirs (w\<lparr>dirs := insert td (dirs w)\<rparr>)" by simp
  from vt have "td \<in> dirs wv"
  proof (cases rule: video_try_cases)
    case no_tmpdir
    with td show ?thesis by simp
  next
    case (loop_failed td' err')
    with td render_loop_frame[OF loop_failed(2)] show ?thesis by simp
  next
    case (no_clips td')
    with td render_loop_frame[OF no_clips(2)] show ?thesis by simp
  next
    case (logo_failed td' clips w1 s err')
    with td render_loop_frame[OF logo_failed(2)] add_logo_frame[OF logo_failed(5)]
    show ?thesis by simp
  next
    case (music_failed td' clips w1 s s2 w2 err')
    with td render_loop_frame[OF music_failed(2)] add_logo_frame[OF music_failed(5)]
      add_music_frame[OF music_failed(6)]
    show ?thesis by simp
  next
    case (encode_failed td' clips w1 s s2 w2 s3 w3 err')
    with td render_loop_frame[OF encode_failed(2)] add_logo_frame[OF encode_failed(5)]
      add_music_frame[OF encode_failed(6)] ffmpeg_run_frame[OF encode_failed(7)]
    show ?thesis by simp
  next
    case (encoded td' clips w1 s s2 w2 s3 w3 u w4)
    from encoded(8) r rmtree_result[OF encoded(8)] have "wv = w4" by simp
    with td encoded(1) render_loop_frame[OF encoded(2)] add_logo_frame[OF encoded(5)]
      add_music_frame[OF encoded(6)] ffmpeg_run_frame[OF encoded(7)]
    show ?thesis by simp
  qed
  with w' show ?thesis by simp
qed

text \<open>
  The scale string of \<open>create_ken_burns_effect\<close> can be computed for every finite
  \<open>zoom_start\<close> whose products with the image's width and height stay in float range.
\<close>

lemma fl_in_range: "\<bar>r\<bar> < 2 ^ 1024 - 2 ^ 970 \<Longrightarrow> fl r = Finite r"
  by (auto simp: fl_def)

lemma zoom_filter_finite:
  assumes "\<bar>of_nat width * r\<bar> < 2 ^ 1024 - 2 ^ 970"
    and "\<bar>of_nat height * r\<bar> < 2 ^ 1024 - 2 ^ 970"
  shows "\<not> isl (zoom_filter width height (Finite r))"
  using assms by (simp add: zoom_filter_def float_of_int_def fl_in_range)

lemma py_truediv_in_range:
  assumes b: "b \<noteq> 0" and a: "\<bar>a\<bar> \<le> 2 ^ 1023"
  shows "py_truediv a b = Inr (Finite (round_double (of_int a / of_int b)))"
proof -
  let ?x = "of_int a / of_int b :: rat"
  have b1: "(1::rat) \<le> \<bar>of_int b\<bar>" using b by (simp flip: of_int_abs)
  have "\<bar>?x\<bar> = \<bar>of_int a\<bar> / \<bar>of_int b\<bar>" by simp
  also have "\<dots> \<le> \<bar>of_int a\<bar> / 1" using b1 by (intro divide_left_mono) simp_all
  finally have x1: "\<bar>?x\<bar> \<le> \<bar>of_int a :: rat\<bar>" by simp
  have "\<bar>of_int a :: rat\<bar> = of_int \<bar>a\<bar>" by simp
  also have "\<dots> \<le> of_int (2 ^ 1023)" using a by (simp only: of_int_le_iff)
  finally have x2: "\<bar>?x\<bar> \<le> 2 ^ 1023" using x1 by simp
  have e53: "\<bar>?x\<bar> / 2 ^ 53 \<le> 2 ^ 1023 / 2 ^ 53" using x2 by (simp add: divide_right_mono)
  from round_double_error[of ?x]
  have "\<bar>round_double ?x\<bar> \<le> \<bar>?x\<bar> + \<bar>?x\<bar> / 2 ^ 53 + 1 / 2 ^ 1075" by linarith
  with x2 e53 have "\<bar>round_double ?x\<bar> \<le> 2 ^ 1023 + 2 ^ 1023 / 2 ^ 53 + 1 / 2 ^ 1075" by linarith
  also have "\<dots> < (2::rat) ^ 1024 - 2 ^ 970" by simp
  finally have "\<bar>round_double ?x\<bar> < 2 ^ 1024 - 2 ^ 970" .
  then have "fl (round_double ?x) = Finite (round_double ?x)" by (rule fl_in_range)
  then show ?thesis using b by (simp add: py_truediv_def)
qed

lemma render_image_succeeds:
  assumes "b64decode e b \<noteq> None"
    and "can_write e (path_join td (''image_'' @ show_nat i @ ''.jpg''))"
    and "py_truediv (duration p) (int (length (images p))) = Inr cd"
  shows "\<exists>v w'. render_image e p td i b w = (Inr v, w')"
proof -
  from assms(1) obtain data where d: "b64decode e b = Some data" by auto
  let ?ip = "path_join td (''image_'' @ show_nat i @ ''.jpg'')"
  let ?cp = "path_join td (''clip_'' @ show_nat i @ ''.mp4'')"
  let ?w1 = "w\<lparr>files := (files w)(?ip \<mapsto> data)\<rparr>"
  let ?zs = "fadd (Finite 1) (fmul (float_of_int (int i)) (Finite (1 / 10)))"
  let ?ze = "fadd (Finite (6 / 5)) (fmul (float_of_int (int i)) (Finite (1 / 10)))"
  let ?px = "PInt ((int i mod 2) * 100)"
  let ?py = "PInt ((int i mod 3) * 50)"
  obtain ok w2 where kb: "create_ken_burns_effect e ?w1 ?ip ?cp cd ?zs ?ze ?px ?py = (ok, w2)"
    by (cases "create_ken_burns_effect e ?w1 ?ip ?cp cd ?zs ?ze ?px ?py")
  show ?thesis
    using d assms(2,3) kb by (cases ok) (simp_all add: render_image_def write_file_def)
qed
lemma render_loop_completes:
  assumes pre: "\<forall>x\<in>set xs. b64decode e (snd x) \<noteq> None \<and>
             can_write e (path_join td (''image_'' @ show_nat (fst x) @ ''.jpg''))"
    and dv: "py_truediv (duration p) (int (length (images p))) = Inr cd"
  shows "\<exists>clips' w'. render_loop e p td xs clips w = (Inr clips', w')"
  using pre
proof (induction xs arbitrary: clips w)
  case Nil
  show ?case by simp
next
  case (Cons x xs)
  obtain i b where x: "x = (i, b)" by (cases x)
  have hd_ok: "b64decode e (snd x) \<noteq> None \<and>
             can_write e (path_join td (''image_'' @ show_nat (fst x) @ ''.jpg''))"
    using Cons.prems by (rule bspec) simp
  have rest: "\<forall>y\<in>set xs. b64decode e (snd y) \<noteq> None \<and>
             can_write e (path_join td (''image_'' @ show_nat (fst y) @ ''.jpg''))"
  proof
    fix y assume "y \<in> set xs"
    then have "y \<in> set (x # xs)" by simp
    with Cons.prems show "b64decode e (snd y) \<noteq> None \<and>
             can_write e (path_join td (''image_'' @ show_nat (fst y) @ ''.jpg''))"
      by (rule bspec)
  qed
  have h1: "b64decode e b \<noteq> None" using hd_ok unfolding x by simp
  have h2: "can_write e (path_join td (''image_'' @ show_nat i @ ''.jpg''))"
    using hd_ok unfolding x by simp
  from render_image_succeeds[OF h1 h2 dv] obtain v w1 where
    ri: "render_image e p td i b w = (Inr v, w1)" by blast
  show ?case
  proof (cases v)
    case None
    have step: "render_loop e p td (x # xs) clips w = render_loop e p td xs clips w1"
      unfolding x by (simp add: ri None)
    show ?thesis unfolding step by (rule Cons.IH[OF rest])
  next
    case (Some c)
    have step: "render_loop e p td (x # xs) clips w = render_loop e p td xs (clips @ [c]) w1"
      unfolding x by (simp add: ri Some)
    show ?thesis unfolding step by (rule Cons.IH[OF rest])
  qed
qed
lemma video_try_calls_after_loop:
  assumes td: "tmpdir e = Some td"
    and rl: "render_loop e p td (enumerate 0 (images p)) [] (w\<lparr>dirs := insert td (dirs w)\<rparr>)
               = (rl, w1)"
  shows "kb_calls (snd (video_try e w p outp)) = kb_calls w1"
proof -
  obtain r w' where vt: "video_try e w p outp = (r, w')" by (cases "video_try e w p outp")
  from vt have "kb_calls w' = kb_calls w1"
  proof (cases rule: video_try_cases)
    case no_tmpdir
    with td show ?thesis by simp
  next
    case (loop_failed td' err)
    with td rl show ?thesis by simp
  next
    case (no_clips td')
    with td rl show ?thesis by simp
  next
    case (logo_failed td' clips w1' s err)
    with td rl add_logo_frame[OF logo_failed(5)] show ?thesis by simp
  next
    case (music_failed td' clips w1' s s2 w2 err)
    with td rl add_logo_frame[OF music_failed(5)] add_music_frame[OF music_failed(6)]
    show ?thesis by simp
  next
    case (encode_failed td' clips w1' s s2 w2 s3 w3 err)
    with td rl add_logo_frame[OF encode_failed(5)] add_music_frame[OF encode_failed(6)]
      ffmpeg_run_frame[OF encode_failed(7)]
    show ?thesis by simp
  next
    case (encoded td' clips w1' s s2 w2 s3 w3 u w4)
    with td rl add_logo_frame[OF encoded(5)] add_music_frame[OF encoded(6)]
      ffmpeg_run_frame[OF encoded(7)] rmtree_result[OF encoded(8)]
    show ?thesis by simp
  qed
  with vt show ?thesis by simp
qed
lemma output_filename_valid:
  assumes "CHR ''/'' \<notin> set project_id" and "CHR ''/'' \<notin> set res"
  shows "valid_part (output_filename project_id res)"
proof -
  have "length (output_filename project_id res) \<ge> 2" by (simp add: output_filename_def)
  then have "output_filename project_id res \<noteq> []" "output_filename project_id res \<noteq> ''.''"
    by auto
  moreover have "CHR ''/'' \<notin> set (output_filename project_id res)"
    using assms by (simp add: output_filename_def)
  ultimately show ?thesis by (simp only: valid_part_def simp_thms)
qed

section \<open>The claims\<close>

subsection \<open>C1: a generate call leaves a terminal status\<close>

text \<open>
  C1. For every project with a non-empty image list that \<open>generate_video\<close> finds, the
  project's status after the call is \<open>completed\<close> or \<open>failed\<close>, never \<open>processing\<close>:
  it is \<open>completed\<close> exactly when the call returns, and \<open>failed\<close> exactly when it raises.
\<close>

theorem generate_video_terminal_status:
  assumes "db w project_id = Some p" and "images p \<noteq> []"
  shows "\<exists>p'. db (snd (generate_video e w project_id)) project_id = Some p' \<and>
           (status p' = ''completed'' \<or> status p' = ''failed'') \<and>
           status p' \<noteq> ''processing'' \<and>
           status p' = (case fst (generate_video e w project_id) of
                          Inr _ \<Rightarrow> ''completed'' | Inl _ \<Rightarrow> ''failed'')"
proof -
  let ?w1 = "update_one w project_id (\<lambda>p. p\<lparr>status := ''processing''\<rparr>)"
  let ?out = "pathlib_div (OUTPUT_DIR e) (output_filename project_id (resolution p))"
  obtain ok w2 where cv: "create_video_from_images e ?w1 p ?out = (ok, w2)"
    by (cases "create_video_from_images e ?w1 p ?out")
  from create_video_from_images_db[OF cv] assms(1)
  have db2: "db w2 project_id = Some (p\<lparr>status := ''processing''\<rparr>)"
    by (simp add: update_one_def)
  show ?thesis
  proof (cases ok)
    case True
    with assms cv db2 show ?thesis
      by (simp add: generate_video_def update_one_def Let_def)
  next
    case False
    with assms cv db2 show ?thesis
      by (simp add: generate_video_def update_one_def Let_def)
  qed
qed

text \<open>The two-image project in the all-succeeding environment.\<close>

theorem generate_video_terminal_status_witness:
  "db w0 ''p1'' = Some demo \<and> images demo \<noteq> [] \<and>
   (\<exists>p'. db (snd (generate_video env_ok w0 ''p1'')) ''p1'' = Some p' \<and>
       (status p' = ''completed'' \<or> status p' = ''failed'') \<and>
       status p' \<noteq> ''processing'' \<and>
       status p' = (case fst (generate_video env_ok w0 ''p1'') of
                          Inr _ \<Rightarrow> ''completed'' | Inl _ \<Rightarrow> ''failed''))"
proof -
  have h1: "db w0 ''p1'' = Some demo" by (simp add: w0_def)
  have h2: "images demo \<noteq> []" by (simp add: demo_def)
  from h1 h2 generate_video_terminal_status[OF h1 h2, of env_ok] show ?thesis by blast
qed

subsection \<open>C2: an empty image list is rejected before any work\<close>

text \<open>
  C2. For every project whose image list is empty, \<open>generate_video\<close> raises the
  validation error (HTTP 400, \<open>No images uploaded\<close>) and leaves the whole world as it
  was: the status and every other field of every project, the files, the temporary
  directories, and the histories of render calls and encoder runs, so no pipeline stage
  ran.
\<close>

theorem generate_video_rejects_empty:
  assumes "db w project_id = Some p" and "images p = []"
  shows "generate_video e w project_id = (Inl (HTTPException 400 ''No images uploaded''), w)"
  using assms by (simp add: generate_video_def)

text \<open>The project without images.\<close>

theorem generate_video_rejects_empty_witness:
  "db w0 ''p0'' = Some blank \<and> images blank = [] \<and>
   generate_video env_ok w0 ''p0'' = (Inl (HTTPException 400 ''No images uploaded''), w0)"
proof -
  have h1: "db w0 ''p0'' = Some blank" by (simp add: w0_def)
  have h2: "images blank = []" by (simp add: blank_def)
  from h1 h2 generate_video_rejects_empty[OF h1 h2, of env_ok] show ?thesis by blast
qed

subsection \<open>C3: a clip that fails to render is skipped\<close>

text \<open>
  C3. When the image loop of \<open>create_video_from_images\<close> completes (no image failed to
  decode or to be written), it has called \<open>create_ken_burns_effect\<close> once per image, in
  index order, on \<open>image_i.jpg\<close> and \<open>clip_i.mp4\<close>, and the clip list it hands to the
  composition is exactly the outputs of the calls that returned \<open>True\<close>, in that order.
  So the list is at most as long as the image list, and strictly shorter exactly when
  some render failed; and the job raises \<open>No video clips created\<close> exactly when no
  render succeeded.
\<close>

theorem clip_failures_absorbed:
  assumes td: "tmpdir e = Some td"
    and rl: "render_loop e p td (enumerate 0 (images p)) [] (w\<lparr>dirs := insert td (dirs w)\<rparr>)
               = (Inr clips, w1)"
  shows "\<exists>calls. kb_calls w1 = kb_calls w @ calls \<and>
           map kb_image calls =
             map (\<lambda>i. path_join td (''image_'' @ show_nat i @ ''.jpg'')) [0..<length (images p)] \<and>
           map kb_output calls =
             map (\<lambda>i. path_join td (''clip_'' @ show_nat i @ ''.mp4'')) [0..<length (images p)] \<and>
           clips = map kb_output (filter kb_result calls) \<and>
           length clips \<le> length (images p) \<and>
           ((length clips < length (images p)) = (\<exists>c\<in>set calls. \<not> kb_result c)) \<and>
           ((fst (video_try e w p outp) = Inl (PyException ''No video clips created''))
              = (\<forall>c\<in>set calls. \<not> kb_result c))"
proof -
  from render_loop_result[OF rl] obtain calls where
    calls: "kb_calls w1 = kb_calls w @ calls"
      "map kb_image calls = map (\<lambda>(i, b). path_join td (''image_'' @ show_nat i @ ''.jpg''))
         (enumerate 0 (images p))"
      "map kb_output calls = map (\<lambda>(i, b). path_join td (''clip_'' @ show_nat i @ ''.mp4''))
         (enumerate 0 (images p))"
      "clips = map kb_output (filter kb_result calls)"
    by auto
  have len: "length calls = length (images p)"
    using calls(2) by (metis length_map length_enumerate)
  have c1: "length clips \<le> length (images p)"
    using calls(4) len by (metis length_filter_le length_map)
  have c2: "(length clips < length (images p)) = (\<exists>c\<in>set calls. \<not> kb_result c)"
    using calls(4) len filter_length_lt[of kb_result calls] by simp
  have empty: "(clips = []) = (\<forall>c\<in>set calls. \<not> kb_result c)"
    using calls(4) by (simp add: filter_empty_conv)
  obtain r w' where vt: "video_try e w p outp = (r, w')" by (cases "video_try e w p outp")
  have c3: "(r = Inl (PyException ''No video clips created'')) = (clips = [])"
    using vt
  proof (cases rule: video_try_cases)
    case no_tmpdir
    with td show ?thesis by simp
  next
    case (loop_failed td' err)
    with td rl show ?thesis by simp
  next
    case (no_clips td')
    with td rl show ?thesis by simp
  next
    case (logo_failed td' clips' w1' s err)
    with td rl add_logo_frame[of e w1' p td' s "Inl err" w'] show ?thesis by auto
  next
    case (music_failed td' clips' w1' s s2 w2 err)
    with td rl add_music_frame[of e w2 p td' s2 outp "Inl err" w'] show ?thesis by auto
  next
    case (encode_failed td' clips' w1' s s2 w2 s3 w3 err)
    with td rl ffmpeg_run_result[of e w3 s3 True "Inl err" w'] show ?thesis by auto
  next
    case (encoded td' clips' w1' s s2 w2 s3 w3 u w4)
    with td rl rmtree_result[of e w4 td' r w'] show ?thesis by auto
  qed
  show ?thesis
  proof (intro exI[of _ calls] conjI)
    show "kb_calls w1 = kb_calls w @ calls" by (rule calls(1))
    show "map kb_image calls =
             map (\<lambda>i. path_join td (''image_'' @ show_nat i @ ''.jpg'')) [0..<length (images p)]"
      using calls(2) map_enumerate_index[of "\<lambda>i. path_join td (''image_'' @ show_nat i @ ''.jpg'')" 0 "images p"]
      by simp
    show "map kb_output calls =
             map (\<lambda>i. path_join td (''clip_'' @ show_nat i @ ''.mp4'')) [0..<length (images p)]"
      using calls(3) map_enumerate_index[of "\<lambda>i. path_join td (''clip_'' @ show_nat i @ ''.mp4'')" 0 "images p"]
      by simp
    show "clips = map kb_output (filter kb_result calls)" by (rule calls(4))
    show "length clips \<le> length (images p)" by (rule c1)
    show "(length clips < length (images p)) = (\<exists>c\<in>set calls. \<not> kb_result c)" by (rule c2)
    show "(fst (video_try e w p outp) = Inl (PyException ''No video clips created''))
              = (\<forall>c\<in>set calls. \<not> kb_result c)"
      using c3 empty vt by simp
  qed
qed

text \<open>
  Three images, the second of which the image library rejects: the loop completes with
  the clips of the first and the third image.
\<close>

theorem clip_failures_absorbed_witness:
  "tmpdir env_ok = Some ''/tmp/job'' \<and>
   render_loop env_ok trio ''/tmp/job'' (enumerate 0 (images trio)) []
       (w0\<lparr>dirs := insert ''/tmp/job'' (dirs w0)\<rparr>)
     = (Inr [''/tmp/job/clip_0.mp4'', ''/tmp/job/clip_2.mp4''],
        snd (render_loop env_ok trio ''/tmp/job'' (enumerate 0 (images trio)) []
               (w0\<lparr>dirs := insert ''/tmp/job'' (dirs w0)\<rparr>))) \<and>
   (\<exists>calls.
       kb_calls (snd (render_loop env_ok trio ''/tmp/job'' (enumerate 0 (images trio)) []
                        (w0\<lparr>dirs := insert ''/tmp/job'' (dirs w0)\<rparr>)))
         = kb_calls w0 @ calls \<and>
       map kb_image calls =
         map (\<lambda>i. path_join ''/tmp/job'' (''image_'' @ show_nat i @ ''.jpg'')) [0..<length (images trio)] \<and>
       map kb_output calls =
         map (\<lambda>i. path_join ''/tmp/job'' (''clip_'' @ show_nat i @ ''.mp4'')) [0..<length (images trio)] \<and>
       [''/tmp/job/clip_0.mp4'', ''/tmp/job/clip_2.mp4''] = map kb_output (filter kb_result calls) \<and>
       length [''/tmp/job/clip_0.mp4'', ''/tmp/job/clip_2.mp4''] \<le> length (images trio) \<and>
       ((length [''/tmp/job/clip_0.mp4'', ''/tmp/job/clip_2.mp4''] < length (images trio))
          = (\<exists>c\<in>set calls. \<not> kb_result c)) \<and>
       ((fst (video_try env_ok w0 trio ''/app/outputs/p3_1080p.mp4'')
           = Inl (PyException ''No video clips created''))
          = (\<forall>c\<in>set calls. \<not> kb_result c)))"
proof -
  have h1: "tmpdir env_ok = Some ''/tmp/job''" by (simp add: env_ok_def)
  have h2: "render_loop env_ok trio ''/tmp/job'' (enumerate 0 (images trio)) []
       (w0\<lparr>dirs := insert ''/tmp/job'' (dirs w0)\<rparr>)
     = (Inr [''/tmp/job/clip_0.mp4'', ''/tmp/job/clip_2.mp4''],
        snd (render_loop env_ok trio ''/tmp/job'' (enumerate 0 (images trio)) []
               (w0\<lparr>dirs := insert ''/tmp/job'' (dirs w0)\<rparr>)))"
    by (simp add: prod_eq_iff pipeline_defs fixture_defs)
  show ?thesis
    by (intro conjI h1 h2 clip_failures_absorbed[OF h1 h2])
qed

subsection \<open>C4: the temporary directory after a failed job\<close>

text \<open>
  C4 fails on the code. \<open>shutil.rmtree(temp_dir)\<close> is the last statement of the \<open>try\<close>
  block, and the \<open>except\<close> clause only prints and returns \<open>False\<close>. When both clips of
  the two-image project render and the final encode fails, \<open>generate_video\<close> raises HTTP
  500 and sets the status to \<open>failed\<close>, and the temporary directory \<open>/tmp/job\<close> and the
  files in it are still there; after a successful run of the same project the directory
  is gone.
\<close>

theorem temp_dir_left_after_failed_encode:
  "fst (generate_video env_encode_fails w0 ''p1'')
     = Inl (HTTPException 500 ''Video generation failed: Video generation failed'') \<and>
   map_option status (db (snd (generate_video env_encode_fails w0 ''p1'')) ''p1'') = Some ''failed'' \<and>
   ''/tmp/job'' \<in> dirs (snd (generate_video env_encode_fails w0 ''p1'')) \<and>
   files (snd (generate_video env_encode_fails w0 ''p1'')) ''/tmp/job/image_0.jpg'' = Some ''a'' \<and>
   files (snd (generate_video env_encode_fails w0 ''p1'')) ''/tmp/job/clip_1.mp4'' = Some ''clip'' \<and>
   ''/tmp/job'' \<notin> dirs (snd (generate_video env_ok w0 ''p1''))"
  by (simp add: pipeline_defs fixture_defs)

subsection \<open>C5: the duration is split equally\<close>

text \<open>
  C5. For every project with a non-empty image list whose images all decode and can be
  written to the temporary directory (and whose duration is in float range),
  \<open>create_video_from_images\<close> calls \<open>create_ken_burns_effect\<close> exactly once per image, in
  index order, and gives every call the same clip duration: the float
  \<open>project.duration / len(project.images)\<close>, that is the double nearest to the quotient.
  The clip durations add up to \<open>project.duration\<close> up to the rounding remainder: the sum
  differs from it by at most \<open>|duration| / 2^53 + n / 2^1075\<close>.
\<close>

theorem clip_duration_equal_split:
  assumes td: "tmpdir e = Some td"
    and dec: "list_all (\<lambda>b. b64decode e b \<noteq> None) (images p)"
    and wr: "list_all (\<lambda>i. can_write e (path_join td (''image_'' @ show_nat i @ ''.jpg'')))
               [0..<length (images p)]"
    and ne: "images p \<noteq> []"
    and rng: "\<bar>duration p\<bar> \<le> 2 ^ 1023"
  shows "\<exists>calls.
           kb_calls (snd (create_video_from_images e w p outp)) = kb_calls w @ calls \<and>
           map kb_image calls =
             map (\<lambda>i. path_join td (''image_'' @ show_nat i @ ''.jpg'')) [0..<length (images p)] \<and>
           map kb_duration calls =
             replicate (length (images p))
               (Finite (round_double (of_int (duration p) / of_nat (length (images p))))) \<and>
           \<bar>sum_list (map (\<lambda>c. float_value (kb_duration c)) calls) - of_int (duration p)\<bar>
             \<le> \<bar>of_int (duration p)\<bar> / 2 ^ 53 + of_nat (length (images p)) / 2 ^ 1075"
proof -
  let ?n = "length (images p)"
  let ?x = "of_int (duration p) / of_nat ?n :: rat"
  let ?w0 = "w\<lparr>dirs := insert td (dirs w)\<rparr>"
  have npos: "0 < ?n" using ne by simp
  have div: "py_truediv (duration p) (int ?n) = Inr (Finite (round_double ?x))"
    using py_truediv_in_range[of "int ?n" "duration p"] npos rng by simp
  have pre: "\<forall>x\<in>set (enumerate 0 (images p)). b64decode e (snd x) \<noteq> None \<and>
             can_write e (path_join td (''image_'' @ show_nat (fst x) @ ''.jpg''))"
    using dec wr by (auto simp: list_all_iff in_set_enumerate_eq)
  from render_loop_completes[OF pre div, where clips = "[]" and w = ?w0] obtain clips w1 where
    rl: "render_loop e p td (enumerate 0 (images p)) [] ?w0 = (Inr clips, w1)" by blast
  from render_loop_result[OF rl] obtain calls where
    c: "kb_calls w1 = kb_calls ?w0 @ calls"
       "\<forall>c\<in>set calls. kb_duration c = Finite (round_double ?x)"
       "map kb_image calls = map (\<lambda>(i, b). path_join td (''image_'' @ show_nat i @ ''.jpg''))
          (enumerate 0 (images p))"
    by auto
  have len: "length calls = ?n" using c(3) by (metis length_map length_enumerate)
  have img: "map kb_image calls =
             map (\<lambda>i. path_join td (''image_'' @ show_nat i @ ''.jpg'')) [0..<?n]"
    using c(3) map_enumerate_index[of "\<lambda>i. path_join td (''image_'' @ show_nat i @ ''.jpg'')" 0 "images p"]
    by simp
  have dur: "map kb_duration calls = replicate ?n (Finite (round_double ?x))"
  proof -
    have "map kb_duration calls = map (\<lambda>_. Finite (round_double ?x)) calls"
      using c(2) by (simp only: map_eq_conv)
    also have "\<dots> = replicate (length calls) (Finite (round_double ?x))"
      by (rule map_replicate_const)
    finally show ?thesis unfolding len .
  qed
  have "\<forall>c\<in>set calls. float_value (kb_duration c) = round_double ?x" using c(2) by simp
  from sum_list_const[OF this] len
  have s: "sum_list (map (\<lambda>c. float_value (kb_duration c)) calls) = of_nat ?n * round_double ?x"
    by simp
  have nx: "of_nat ?n * ?x = of_int (duration p)" using npos by simp
  have "of_nat ?n * round_double ?x - of_nat ?n * ?x = of_nat ?n * (round_double ?x - ?x)"
    by (rule right_diff_distrib[symmetric])
  then have "\<bar>of_nat ?n * round_double ?x - of_nat ?n * ?x\<bar> = of_nat ?n * \<bar>round_double ?x - ?x\<bar>"
    by (simp only: abs_mult abs_of_nat)
  also have "\<dots> \<le> of_nat ?n * (\<bar>?x\<bar> / 2 ^ 53 + 1 / 2 ^ 1075)"
    using round_double_error[of ?x] by (intro mult_left_mono) simp_all
  also have "\<dots> = \<bar>of_nat ?n * ?x\<bar> / 2 ^ 53 + of_nat ?n / 2 ^ 1075"
  proof -
    have g: "m * (a / c + 1 / d) = m * a / c + m / d" for m a c d :: rat
      by (simp add: distrib_left)
    have "\<bar>of_nat ?n * ?x\<bar> = of_nat ?n * \<bar>?x\<bar>" by (simp only: abs_mult abs_of_nat)
    then show ?thesis by (simp only: g)
  qed
  finally have bound:
    "\<bar>sum_list (map (\<lambda>c. float_value (kb_duration c)) calls) - of_int (duration p)\<bar>
       \<le> \<bar>of_int (duration p)\<bar> / 2 ^ 53 + of_nat ?n / 2 ^ 1075"
    unfolding s nx .
  have "kb_calls (snd (create_video_from_images e w p outp)) = kb_calls (snd (video_try e w p outp))"
    by (simp add: create_video_from_images_def split: prod.splits sum.splits)
  also have "\<dots> = kb_calls w1" by (rule video_try_calls_after_loop[OF td rl])
  finally have k: "kb_calls (snd (create_video_from_images e w p outp)) = kb_calls w @ calls"
    using c(1) by simp
  have "kb_calls (snd (create_video_from_images e w p outp)) = kb_calls w @ calls \<and>
           map kb_image calls =
             map (\<lambda>i. path_join td (''image_'' @ show_nat i @ ''.jpg'')) [0..<?n] \<and>
           map kb_duration calls = replicate ?n (Finite (round_double ?x)) \<and>
           \<bar>sum_list (map (\<lambda>c. float_value (kb_duration c)) calls) - of_int (duration p)\<bar>
             \<le> \<bar>of_int (duration p)\<bar> / 2 ^ 53 + of_nat ?n / 2 ^ 1075"
    using k img dur bound by (intro conjI)
  then show ?thesis by blast
qed

text \<open>
  The two-image project with duration 30: two calls of 15 seconds each, and the pipeline
  succeeds.
\<close>

theorem clip_duration_equal_split_witness:
  "tmpdir env_ok = Some ''/tmp/job'' \<and>
   list_all (\<lambda>b. b64decode env_ok b \<noteq> None) (images demo) \<and>
   list_all (\<lambda>i. can_write env_ok (path_join ''/tmp/job'' (''image_'' @ show_nat i @ ''.jpg'')))
     [0..<length (images demo)] \<and>
   images demo \<noteq> [] \<and>
   \<bar>duration demo\<bar> \<le> 2 ^ 1023 \<and>
   (\<exists>calls.
       kb_calls (snd (create_video_from_images env_ok w0 demo ''/app/outputs/p1_1080p.mp4''))
         = kb_calls w0 @ calls \<and>
       map kb_image calls =
         map (\<lambda>i. path_join ''/tmp/job'' (''image_'' @ show_nat i @ ''.jpg''))
           [0..<length (images demo)] \<and>
       map kb_duration calls =
         replicate (length (images demo))
           (Finite (round_double (of_int (duration demo) / of_nat (length (images demo))))) \<and>
       \<bar>sum_list (map (\<lambda>c. float_value (kb_duration c)) calls) - of_int (duration demo)\<bar>
         \<le> \<bar>of_int (duration demo)\<bar> / 2 ^ 53 + of_nat (length (images demo)) / 2 ^ 1075) \<and>
   map kb_duration
     (kb_calls (snd (create_video_from_images env_ok w0 demo ''/app/outputs/p1_1080p.mp4'')))
     = [Finite 15, Finite 15] \<and>
   fst (create_video_from_images env_ok w0 demo ''/app/outputs/p1_1080p.mp4'') = True"
proof -
  have h1: "tmpdir env_ok = Some ''/tmp/job''" by (simp add: env_ok_def)
  have h2: "list_all (\<lambda>b. b64decode env_ok b \<noteq> None) (images demo)"
    by (simp add: env_ok_def demo_def)
  have h3: "list_all (\<lambda>i. can_write env_ok (path_join ''/tmp/job'' (''image_'' @ show_nat i @ ''.jpg'')))
     [0..<length (images demo)]"
    by (simp add: env_ok_def list_all_iff)
  have h4: "images demo \<noteq> []" by (simp add: demo_def)
  have h5: "\<bar>duration demo\<bar> \<le> 2 ^ 1023" by (simp add: demo_def)
  have run: "map kb_duration
     (kb_calls (snd (create_video_from_images env_ok w0 demo ''/app/outputs/p1_1080p.mp4'')))
     = [Finite 15, Finite 15] \<and>
   fst (create_video_from_images env_ok w0 demo ''/app/outputs/p1_1080p.mp4'') = True"
    by (simp add: pipeline_defs fixture_defs)
  show ?thesis
    by (intro conjI h1 h2 h3 h4 h5 clip_duration_equal_split[OF h1 h2 h3 h4 h5]
          run[THEN conjunct1] run[THEN conjunct2])
qed

subsection \<open>C6: one clip passes through, several are cross-faded left to right\<close>

text \<open>
  C6. A single clip is handed on as its plain input, with no filter. For a non-empty clip
  list \<open>cs\<close> followed by one more clip \<open>c'\<close>, the composition is the \<open>xfade\<close> filter
  (\<open>transition='fade'\<close>, \<open>duration=0.5\<close>) applied to the composition of \<open>cs\<close> and the
  input of \<open>c'\<close>: the chain is built left to right, one cross-fade per adjacent pair.
\<close>

theorem crossfade_chain:
  "concat_clips [c] = Inr (Input c []) \<and>
   (cs \<noteq> [] \<longrightarrow>
      (\<exists>s. concat_clips cs = Inr s \<and>
           concat_clips (cs @ [c']) =
             Inr (Filter [s, Input c' []] ''xfade'' []
                    [(''transition'', PStr ''fade''), (''duration'', PFloat (Finite (1 / 2)))])))"
proof (intro conjI impI)
  show "concat_clips [c] = Inr (Input c [])" by (simp add: concat_clips_def Let_def)
next
  assume ne: "cs \<noteq> []"
  let ?inputs = "map (\<lambda>clip. Input clip []) cs"
  let ?inputs' = "map (\<lambda>clip. Input clip []) (cs @ [c'])"
  let ?chain = "foldl (\<lambda>s i. xfade s (?inputs ! i)) (?inputs ! 0) [1..<length cs]"
  have one: "concat_clips cs = Inr ?chain"
  proof (cases "length cs = 1")
    case True
    then show ?thesis by (simp add: concat_clips_def Let_def)
  next
    case False
    with ne show ?thesis by (simp add: concat_clips_def Let_def)
  qed
  have len: "1 \<le> length cs" using ne by (cases cs) simp_all
  have same: "\<forall>i\<in>set [1..<length cs]. ?inputs' ! i = ?inputs ! i"
    by (simp add: nth_append)
  have zero: "?inputs' ! 0 = ?inputs ! 0" using ne by (cases cs) simp_all
  have last: "?inputs' ! length cs = Input c' []" by (simp add: nth_append)
  have u: "[1..<length (cs @ [c'])] = [1..<length cs] @ [length cs]" using len by simp
  have n1: "length ?inputs' \<noteq> 1" using ne by (cases cs) simp_all
  have n0: "?inputs' \<noteq> []" by simp
  have "concat_clips (cs @ [c']) =
          Inr (foldl (\<lambda>s i. xfade s (?inputs' ! i)) (?inputs' ! 0) ([1..<length cs] @ [length cs]))"
    unfolding concat_clips_def Let_def using n1 n0 u by (simp only: if_False length_map)
  also have "foldl (\<lambda>s i. xfade s (?inputs' ! i)) (?inputs' ! 0) ([1..<length cs] @ [length cs])
      = xfade (foldl (\<lambda>s i. xfade s (?inputs' ! i)) (?inputs' ! 0) [1..<length cs]) (Input c' [])"
    using last by (simp only: foldl_append foldl_Cons foldl_Nil)
  also have "foldl (\<lambda>s i. xfade s (?inputs' ! i)) (?inputs' ! 0) [1..<length cs] = ?chain"
    unfolding zero by (rule foldl_xfade_cong[OF same])
  finally have two: "concat_clips (cs @ [c']) = Inr (xfade ?chain (Input c' []))" .
  show "\<exists>s. concat_clips cs = Inr s \<and>
           concat_clips (cs @ [c']) =
             Inr (Filter [s, Input c' []] ''xfade'' []
                    [(''transition'', PStr ''fade''), (''duration'', PFloat (Finite (1 / 2)))])"
    using one two by (simp add: xfade_def)
qed

text \<open>One, two and three clips.\<close>

theorem crossfade_chain_witness:
  "concat_clips [''a.mp4''] = Inr (Input ''a.mp4'' []) \<and>
   [''a.mp4'', ''b.mp4''] \<noteq> [] \<and>
   (\<exists>s. concat_clips [''a.mp4'', ''b.mp4''] = Inr s \<and>
        concat_clips ([''a.mp4'', ''b.mp4''] @ [''c.mp4'']) =
          Inr (Filter [s, Input ''c.mp4'' []] ''xfade'' []
                 [(''transition'', PStr ''fade''), (''duration'', PFloat (Finite (1 / 2)))])) \<and>
   concat_clips [''a.mp4'', ''b.mp4''] =
     Inr (Filter [Input ''a.mp4'' [], Input ''b.mp4'' []] ''xfade'' []
            [(''transition'', PStr ''fade''), (''duration'', PFloat (Finite (1 / 2)))])"
proof -
  have ne: "[''a.mp4'', ''b.mp4''] \<noteq> ([]::string list)" by simp
  from crossfade_chain[of "''a.mp4''" "[''a.mp4'', ''b.mp4'']" "''c.mp4''"]
  have a: "concat_clips [''a.mp4''] = Inr (Input ''a.mp4'' [])"
    and b: "\<exists>s. concat_clips [''a.mp4'', ''b.mp4''] = Inr s \<and>
        concat_clips ([''a.mp4'', ''b.mp4''] @ [''c.mp4'']) =
          Inr (Filter [s, Input ''c.mp4'' []] ''xfade'' []
                 [(''transition'', PStr ''fade''), (''duration'', PFloat (Finite (1 / 2)))])"
    using ne by blast+
  have c: "concat_clips [''a.mp4'', ''b.mp4''] =
     Inr (Filter [Input ''a.mp4'' [], Input ''b.mp4'' []] ''xfade'' []
            [(''transition'', PStr ''fade''), (''duration'', PFloat (Finite (1 / 2)))])"
    by (simp add: concat_clips_def xfade_def Let_def)
  show ?thesis by (intro conjI ne a b c)
qed

subsection \<open>C7: the output path depends only on the project id and the resolution\<close>

text \<open>
  C7. When two consecutive \<open>generate_video\<close> calls for the same project id both succeed
  (under the same module directory), the last encoder run of each call writes, with
  \<open>overwrite_output\<close> set, to the same path \<open>str(OUTPUT_DIR / f"{project_id}_{resolution}.mp4")\<close>,
  a function of the project id and the resolution alone; when neither of them contains a
  separator that path is \<open>OUTPUT_DIR/{project_id}_{resolution}.mp4\<close>. Both calls return the
  same \<open>video_url\<close>, and after the second call the file system is the one the second
  encoder run left (minus the second job's temporary directory): at the output path it
  holds what the second run wrote, whatever the first run had written there.
\<close>

theorem output_path_idempotent:
  assumes g1: "generate_video e1 w project_id = (Inr r1, w1)"
    and g2: "generate_video e2 w1 project_id = (Inr r2, w2)"
    and root: "root_dir e2 = root_dir e1"
  shows "\<exists>p s1 s2 runs1 runs2 td2 fs2 c2. db w project_id = Some p \<and>
           ffmpeg_runs w1 = runs1 @ [(s1, True, True)] \<and>
           ffmpeg_runs w2 = runs2 @ [(s2, True, True)] \<and>
           out_path s1 =
             Some (pathlib_div (OUTPUT_DIR e1) (output_filename project_id (resolution p))) \<and>
           out_path s2 = out_path s1 \<and>
           (CHR ''/'' \<notin> set project_id \<and> CHR ''/'' \<notin> set (resolution p) \<longrightarrow>
              out_path s1 =
                Some (OUTPUT_DIR e1 @ ''/'' @ project_id @ ''_'' @ resolution p @ ''.mp4'')) \<and>
           r1 = [(''message'', ''Video generated successfully''),
                 (''video_url'', ''/api/videos/'' @ project_id @ ''_'' @ resolution p @ ''.mp4'')] \<and>
           r2 = r1 \<and>
           tmpdir e2 = Some td2 \<and> ffmpeg_exec e2 fs2 s2 = Some c2 \<and>
           files w2 = (\<lambda>q. if prefix (td2 @ ''/'') q then None
                            else (fs2(pathlib_div (OUTPUT_DIR e1)
                                        (output_filename project_id (resolution p)) \<mapsto> c2)) q)"
proof -
  from generate_video_success[OF g1] obtain p td s fs c runs where
    a: "db w project_id = Some p"
       "r1 = [(''message'', ''Video generated successfully''),
                (''video_url'', ''/api/videos/'' @ output_filename project_id (resolution p))]"
       "db w1 = (db w)(project_id \<mapsto>
                      p\<lparr>video_url := Some (''/api/videos/'' @ output_filename project_id (resolution p)),
                        status := ''completed''\<rparr>)"
       "ffmpeg_runs w1 = runs @ [(s, True, True)]"
       "out_path s = Some (pathlib_div (OUTPUT_DIR e1) (output_filename project_id (resolution p)))"
    by blast
  from generate_video_success[OF g2] obtain p' td' s' fs' c' runs' where
    b: "db w1 project_id = Some p'"
       "r2 = [(''message'', ''Video generated successfully''),
                (''video_url'', ''/api/videos/'' @ output_filename project_id (resolution p'))]"
       "tmpdir e2 = Some td'"
       "ffmpeg_runs w2 = runs' @ [(s', True, True)]"
       "out_path s' = Some (pathlib_div (OUTPUT_DIR e2) (output_filename project_id (resolution p')))"
       "ffmpeg_exec e2 fs' s' = Some c'"
       "files w2 = (\<lambda>q. if prefix (td' @ ''/'') q then None
                           else (fs'(pathlib_div (OUTPUT_DIR e2) (output_filename project_id (resolution p')) \<mapsto> c')) q)"
    by blast
  from a(3) b(1) have res: "resolution p' = resolution p" by auto
  have od: "OUTPUT_DIR e2 = OUTPUT_DIR e1" using root by (simp add: OUTPUT_DIR_def)
  let ?o = "pathlib_div (OUTPUT_DIR e1) (output_filename project_id (resolution p))"
  have o2: "out_path s' = out_path s" using a(5) b(5) res od by simp
  have f2: "files w2 = (\<lambda>q. if prefix (td' @ ''/'') q then None else (fs'(?o \<mapsto> c')) q)"
    using b(7) res od by (simp cong: if_cong)
  have u1: "r1 = [(''message'', ''Video generated successfully''),
                 (''video_url'', ''/api/videos/'' @ project_id @ ''_'' @ resolution p @ ''.mp4'')]"
    using a(2) by (simp add: output_filename_def)
  have u2: "r2 = r1" using a(2) b(2) res by simp
  have form: "CHR ''/'' \<notin> set project_id \<and> CHR ''/'' \<notin> set (resolution p) \<longrightarrow>
              out_path s = Some (OUTPUT_DIR e1 @ ''/'' @ project_id @ ''_'' @ resolution p @ ''.mp4'')"
  proof
    assume h: "CHR ''/'' \<notin> set project_id \<and> CHR ''/'' \<notin> set (resolution p)"
    then have v: "valid_part (output_filename project_id (resolution p))"
      by (simp add: output_filename_valid)
    have "?o = OUTPUT_DIR e1 @ ''/'' @ output_filename project_id (resolution p)"
      unfolding OUTPUT_DIR_def by (rule pathlib_div_segment[OF v])
    then show "out_path s = Some (OUTPUT_DIR e1 @ ''/'' @ project_id @ ''_'' @ resolution p @ ''.mp4'')"
      using a(5) by (simp add: output_filename_def)
  qed
  have "db w project_id = Some p \<and>
           ffmpeg_runs w1 = runs @ [(s, True, True)] \<and>
           ffmpeg_runs w2 = runs' @ [(s', True, True)] \<and>
           out_path s = Some ?o \<and>
           out_path s' = out_path s \<and>
           (CHR ''/'' \<notin> set project_id \<and> CHR ''/'' \<notin> set (resolution p) \<longrightarrow>
              out_path s = Some (OUTPUT_DIR e1 @ ''/'' @ project_id @ ''_'' @ resolution p @ ''.mp4'')) \<and>
           r1 = [(''message'', ''Video generated successfully''),
                 (''video_url'', ''/api/videos/'' @ project_id @ ''_'' @ resolution p @ ''.mp4'')] \<and>
           r2 = r1 \<and>
           tmpdir e2 = Some td' \<and> ffmpeg_exec e2 fs' s' = Some c' \<and>
           files w2 = (\<lambda>q. if prefix (td' @ ''/'') q then None else (fs'(?o \<mapsto> c')) q)"
    using a(1) a(4) b(4) a(5) o2 form u1 u2 b(3) b(6) f2 by (intro conjI)
  then show ?thesis by blast
qed

text \<open>
  Two runs of project \<open>p1\<close>, the second in an environment with another temporary
  directory and other encoder output: both write \<open>/app/outputs/p1_1080p.mp4\<close>, which
  holds the second output in the end.
\<close>

theorem output_path_idempotent_witness:
  "generate_video env_ok w0 ''p1'' =
     (Inr [(''message'', ''Video generated successfully''),
           (''video_url'', ''/api/videos/p1_1080p.mp4'')],
      snd (generate_video env_ok w0 ''p1'')) \<and>
   generate_video env_again (snd (generate_video env_ok w0 ''p1'')) ''p1'' =
     (Inr [(''message'', ''Video generated successfully''),
           (''video_url'', ''/api/videos/p1_1080p.mp4'')],
      snd (generate_video env_again (snd (generate_video env_ok w0 ''p1'')) ''p1'')) \<and>
   root_dir env_again = root_dir env_ok \<and>
   (\<exists>p s1 s2 runs1 runs2 td2 fs2 c2. db w0 ''p1'' = Some p \<and>
           ffmpeg_runs (snd (generate_video env_ok w0 ''p1'')) = runs1 @ [(s1, True, True)] \<and>
           ffmpeg_runs (snd (generate_video env_again (snd (generate_video env_ok w0 ''p1'')) ''p1''))
             = runs2 @ [(s2, True, True)] \<and>
           out_path s1 =
             Some (pathlib_div (OUTPUT_DIR env_ok) (output_filename ''p1'' (resolution p))) \<and>
           out_path s2 = out_path s1 \<and>
           (CHR ''/'' \<notin> set ''p1'' \<and> CHR ''/'' \<notin> set (resolution p) \<longrightarrow>
              out_path s1 =
                Some (OUTPUT_DIR env_ok @ ''/'' @ ''p1'' @ ''_'' @ resolution p @ ''.mp4'')) \<and>
           [(''message'', ''Video generated successfully''),
            (''video_url'', ''/api/videos/p1_1080p.mp4'')]
             = [(''message'', ''Video generated successfully''),
                (''video_url'', ''/api/videos/'' @ ''p1'' @ ''_'' @ resolution p @ ''.mp4'')] \<and>
           [(''message'', ''Video generated successfully''),
            (''video_url'', ''/api/videos/p1_1080p.mp4'')]
             = [(''message'', ''Video generated successfully''),
                (''video_url'', ''/api/videos/p1_1080p.mp4'')] \<and>
           tmpdir env_again = Some td2 \<and> ffmpeg_exec env_again fs2 s2 = Some c2 \<and>
           files (snd (generate_video env_again (snd (generate_video env_ok w0 ''p1'')) ''p1''))
             = (\<lambda>q. if prefix (td2 @ ''/'') q then None
                    else (fs2(pathlib_div (OUTPUT_DIR env_ok)
                                (output_filename ''p1'' (resolution p)) \<mapsto> c2)) q)) \<and>
   pathlib_div (OUTPUT_DIR env_ok) (output_filename ''p1'' (resolution demo))
     = ''/app/outputs/p1_1080p.mp4'' \<and>
   files (snd (generate_video env_again (snd (generate_video env_ok w0 ''p1'')) ''p1''))
     ''/app/outputs/p1_1080p.mp4'' = Some ''video2''"
proof -
  have h1: "generate_video env_ok w0 ''p1'' =
     (Inr [(''message'', ''Video generated successfully''),
           (''video_url'', ''/api/videos/p1_1080p.mp4'')],
      snd (generate_video env_ok w0 ''p1''))"
    by (simp add: prod_eq_iff pipeline_defs fixture_defs)
  have h2: "generate_video env_again (snd (generate_video env_ok w0 ''p1'')) ''p1'' =
     (Inr [(''message'', ''Video generated successfully''),
           (''video_url'', ''/api/videos/p1_1080p.mp4'')],
      snd (generate_video env_again (snd (generate_video env_ok w0 ''p1'')) ''p1''))"
    by (simp add: prod_eq_iff pipeline_defs fixture_defs)
  have h3: "root_dir env_again = root_dir env_ok" by (simp add: env_again_def)
  have pth: "pathlib_div (OUTPUT_DIR env_ok) (output_filename ''p1'' (resolution demo))
     = ''/app/outputs/p1_1080p.mp4''"
    by (simp add: pipeline_defs fixture_defs)
  have fin: "files (snd (generate_video env_again (snd (generate_video env_ok w0 ''p1'')) ''p1''))
     ''/app/outputs/p1_1080p.mp4'' = Some ''video2''"
    by (simp add: pipeline_defs fixture_defs)
  show ?thesis
    by (intro conjI h1 h2 h3 pth fin output_path_idempotent[OF h1 h2 h3])
qed

subsection \<open>C8: the per-image zoom and pan parameters and the rendered clips\<close>

text \<open>
  C8 fails on the code. For the two-image project the loop does compute varying
  parameters (\<open>zoom_start\<close> 1.0 and 1.1, \<open>pan_x\<close> 0 and 100) and passes them to
  \<open>create_ken_burns_effect\<close>, but the two encoder graphs that render \<open>clip_0.mp4\<close> and
  \<open>clip_1.mp4\<close> are identical once the file names are blanked: every clip gets the same
  fixed \<open>zoompan\<close> motion.
\<close>

theorem identical_motion_for_every_clip:
  "map kb_zoom_start (kb_calls (snd (create_video_from_images env_ok w0 demo ''/app/outputs/p1_1080p.mp4'')))
     = [Finite 1, Finite (11 / 10)] \<and>
   map kb_pan_x (kb_calls (snd (create_video_from_images env_ok w0 demo ''/app/outputs/p1_1080p.mp4'')))
     = [PInt 0, PInt 100] \<and>
   map kb_result (kb_calls (snd (create_video_from_images env_ok w0 demo ''/app/outputs/p1_1080p.mp4'')))
     = [True, True] \<and>
   map (\<lambda>r. out_path (fst r))
       (take 2 (ffmpeg_runs (snd (create_video_from_images env_ok w0 demo ''/app/outputs/p1_1080p.mp4''))))
     = [Some ''/tmp/job/clip_0.mp4'', Some ''/tmp/job/clip_1.mp4''] \<and>
   erase_paths (fst (ffmpeg_runs (snd (create_video_from_images env_ok w0 demo ''/app/outputs/p1_1080p.mp4'')) ! 0))
     = erase_paths (fst (ffmpeg_runs (snd (create_video_from_images env_ok w0 demo ''/app/outputs/p1_1080p.mp4'')) ! 1))"
  by (simp add: pipeline_defs fixture_defs)

subsection \<open>C9: the logo is overlaid at a fixed offset and its opacity is ignored\<close>

text \<open>
  C9. Changing only \<open>logo_opacity\<close> of a project changes nothing in what
  \<open>create_video_from_images\<close> returns or does: the same result, the same files and the
  same encoder runs. When a logo is present (and decodes and can be written), the stream
  handed on is the overlay of the logo on the composed video with exactly the options
  \<open>x='W-w-20'\<close>, \<open>y='H-h-20'\<close>, \<open>eval='init'\<close>: a fixed 20 pixel offset from the
  bottom-right corner, with no time window and no opacity.
\<close>

theorem logo_overlay_ignores_opacity:
  "create_video_from_images e w (p\<lparr>logo_opacity := a\<rparr>) outp
     = create_video_from_images e w p outp \<and>
   (truthy (logo_file p) \<and> b64decode e (the (logo_file p)) = Some logo_data \<and>
    can_write e (path_join td ''logo.png'') \<longrightarrow>
      add_logo e w p td s =
        (Inr (Overlay s (Input (path_join td ''logo.png'') [])
                [(''x'', PStr ''W-w-20''), (''y'', PStr ''H-h-20''), (''eval'', PStr ''init'')]),
         w\<lparr>files := (files w)(path_join td ''logo.png'' \<mapsto> logo_data)\<rparr>))"
proof (intro conjI impI)
  have "video_try e w (p\<lparr>logo_opacity := a\<rparr>) outp = video_try e w p outp"
    unfolding video_try_def render_loop_logo_opacity add_logo_def add_music_def
      logo_opacity_other_fields ..
  then show "create_video_from_images e w (p\<lparr>logo_opacity := a\<rparr>) outp
     = create_video_from_images e w p outp"
    by (simp add: create_video_from_images_def)
next
  assume "truthy (logo_file p) \<and> b64decode e (the (logo_file p)) = Some logo_data \<and>
    can_write e (path_join td ''logo.png'')"
  then show "add_logo e w p td s =
        (Inr (Overlay s (Input (path_join td ''logo.png'') [])
                [(''x'', PStr ''W-w-20''), (''y'', PStr ''H-h-20''), (''eval'', PStr ''init'')]),
         w\<lparr>files := (files w)(path_join td ''logo.png'' \<mapsto> logo_data)\<rparr>)"
    by (simp add: add_logo_def write_file_def Let_def)
qed

text \<open>The project with a logo, at opacity 0.8 and 0.2.\<close>

theorem logo_overlay_ignores_opacity_witness:
  "create_video_from_images env_ok w0 (branded\<lparr>logo_opacity := Finite (1 / 5)\<rparr>) ''/app/outputs/p4_1080p.mp4''
     = create_video_from_images env_ok w0 branded ''/app/outputs/p4_1080p.mp4'' \<and>
   truthy (logo_file branded) \<and> b64decode env_ok (the (logo_file branded)) = Some ''logo'' \<and>
   can_write env_ok (path_join ''/tmp/job'' ''logo.png'') \<and>
   add_logo env_ok w0 branded ''/tmp/job'' (Input ''/tmp/job/clip_0.mp4'' []) =
     (Inr (Overlay (Input ''/tmp/job/clip_0.mp4'' []) (Input (path_join ''/tmp/job'' ''logo.png'') [])
             [(''x'', PStr ''W-w-20''), (''y'', PStr ''H-h-20''), (''eval'', PStr ''init'')]),
      w0\<lparr>files := (files w0)(path_join ''/tmp/job'' ''logo.png'' \<mapsto> ''logo'')\<rparr>)"
proof -
  have h: "truthy (logo_file branded) \<and> b64decode env_ok (the (logo_file branded)) = Some ''logo'' \<and>
           can_write env_ok (path_join ''/tmp/job'' ''logo.png'')"
    by (simp add: truthy_def branded_def demo_def env_ok_def)
  from logo_overlay_ignores_opacity[where e = env_ok and w = w0 and p = branded
      and a = "Finite (1 / 5)" and outp = "''/app/outputs/p4_1080p.mp4''"
      and logo_data = "''logo''" and td = "''/tmp/job''" and s = "Input ''/tmp/job/clip_0.mp4'' []"] h
  show ?thesis by blast
qed

subsection \<open>C10: the rendered clip does not depend on the zoom and pan arguments\<close>




end
